theory Spec2Isabelle
  imports Main "HOL-Library.Sublist"
begin

section \<open>Wire events and the SSE client (fe/src/services/sse.ts)\<close>

text \<open>
  The interface \<^verbatim>\<open>SSEEvent\<close> has three members, \<^verbatim>\<open>type\<close>, \<^verbatim>\<open>data\<close> and
  \<^verbatim>\<open>timestamp\<close>; its \<^verbatim>\<open>type\<close> is a union of seven string literals. The member
  \<^verbatim>\<open>data\<close> is declared \<^verbatim>\<open>any\<close>; the component reads its members \<^verbatim>\<open>content\<close>,
  \<^verbatim>\<open>message\<close> and \<^verbatim>\<open>type\<close>, so it is modelled as an object with string members
  (an association list); a member that is absent reads as \<^verbatim>\<open>undefined\<close>, here \<open>None\<close>.
\<close>

datatype event_type =
  T_thought | T_tool_call | T_tool_call_result | T_text | T_error
  | T_requirements_confirmed | T_done

record SSEEvent =
  ev_type :: event_type
  ev_data :: "(string \<times> string) list"
  ev_timestamp :: string

definition data_member :: "SSEEvent \<Rightarrow> string \<Rightarrow> string option" where
  "data_member event k = map_of (ev_data event) k"

section \<open>The conversation component (fe/src/components/Conversation/Conversation.tsx)\<close>

text \<open>
  A message of the component's \<^verbatim>\<open>messages\<close> state. \<^verbatim>\<open>content\<close> is a string in
  every message the component builds itself; the code-generation handler stores
  \<^verbatim>\<open>event.data.content\<close> unchecked, so the member can hold \<^verbatim>\<open>undefined\<close> (\<open>None\<close>).
  The user message built by \<^verbatim>\<open>handleSendMessage\<close> has no \<^verbatim>\<open>events\<close> member (\<open>None\<close>).
\<close>

datatype message_role = User | Assistant

record message =
  role :: message_role
  content :: "string option"
  timestamp :: string
  events :: "SSEEvent list option"

text \<open>
  The React state of the component together with the ref
  \<^verbatim>\<open>currentAssistantMessageIndexRef\<close> (\<^verbatim>\<open>number | null\<close>; every value the code
  stores in it is a list index, so it is a natural number here and the test
  \<^verbatim>\<open>currentIndex < 0\<close> of the source is never true). State updates are applied in
  program order: \<^verbatim>\<open>setMessages(prev => ...)\<close> is modelled as running its updater at
  once on the current list.
\<close>

record component =
  messages :: "message list"
  loading :: bool
  error :: "string option"
  isGenerating :: bool
  currentAssistantMessageIndexRef :: "nat option"

text \<open>
  The locals that the event handler of one \<^verbatim>\<open>handleSendMessage\<close> call closes over:
  the set \<^verbatim>\<open>sentMessageHashes\<close> and the counter \<^verbatim>\<open>textEventCount\<close>.
\<close>

record handler_locals =
  sentMessageHashes :: "string set"
  textEventCount :: nat

text \<open>The loop that looks for the last assistant message, from the end of the list.\<close>

fun findLastAssistant :: "message list \<Rightarrow> nat \<Rightarrow> nat option" where
  "findLastAssistant prev 0 = None"
| "findLastAssistant prev (Suc i) =
     (if role (prev ! i) = Assistant then Some i else findLastAssistant prev i)"

definition eventsOrEmpty :: "message \<Rightarrow> SSEEvent list" where
  "eventsOrEmpty m = (case events m of None \<Rightarrow> [] | Some es \<Rightarrow> es)"

text \<open>\<^verbatim>\<open>addEventToMessage\<close>, as the updater it passes to \<^verbatim>\<open>setMessages\<close>.\<close>

definition addEventToMessage :: "nat \<Rightarrow> SSEEvent \<Rightarrow> message list \<Rightarrow> message list" where
  "addEventToMessage messageIndex event prev =
     (if messageIndex \<ge> length prev then prev
      else
        let targetMessage = prev ! messageIndex in
        if role targetMessage = Assistant then
          take messageIndex prev
          @ [targetMessage\<lparr>events := Some (eventsOrEmpty targetMessage @ [event])\<rparr>]
          @ drop (messageIndex + 1) prev
        else prev)"

text \<open>
  The updater of the \<^verbatim>\<open>text\<close> branch: it overwrites the content of the message at
  \<^verbatim>\<open>currentIndex\<close>, and its timestamp with \<^verbatim>\<open>event.timestamp || targetMessage.timestamp\<close>.
\<close>

definition setTextContent :: "nat \<Rightarrow> string \<Rightarrow> SSEEvent \<Rightarrow> message list \<Rightarrow> message list" where
  "setTextContent currentIndex c event prev =
     (if currentIndex \<ge> length prev then prev
      else
        let targetMessage = prev ! currentIndex in
        if role targetMessage = Assistant then
          take currentIndex prev
          @ [targetMessage\<lparr>content := Some c,
               timestamp := (if ev_timestamp event \<noteq> [] then ev_timestamp event
                             else timestamp targetMessage)\<rparr>]
          @ drop (currentIndex + 1) prev
        else prev)"

text \<open>
  The fallback at the head of the handler: with no current index, the ref is set to the
  index of the last assistant message, if there is one.
\<close>

definition resolveIndex :: "component \<Rightarrow> component" where
  "resolveIndex c =
     (case currentAssistantMessageIndexRef c of
        Some i \<Rightarrow> c
      | None \<Rightarrow>
          c\<lparr>currentAssistantMessageIndexRef :=
               findLastAssistant (messages c) (length (messages c))\<rparr>)"

text \<open>
  \<^verbatim>\<open>eventHandler\<close> of \<^verbatim>\<open>handleSendMessage\<close>. The \<^verbatim>\<open>requirements_confirmed\<close>
  branch only calls the API and the callbacks of the parent component, which are not part
  of this state.
\<close>

definition eventHandler :: "SSEEvent \<Rightarrow> handler_locals \<times> component \<Rightarrow> handler_locals \<times> component" where
  "eventHandler event s =
     (let l = fst s; c = resolveIndex (snd s) in
      case currentAssistantMessageIndexRef c of
        None \<Rightarrow> (l, c)
      | Some currentIndex \<Rightarrow>
          if ev_type event = T_text then
            (case data_member event ''content'' of
               None \<Rightarrow> (l, c)
             | Some c0 \<Rightarrow>
                 if c0 = [] then (l, c)
                 else if c0 \<in> sentMessageHashes l then (l, c)
                 else
                   (l\<lparr>sentMessageHashes := insert c0 (sentMessageHashes l),
                      textEventCount := textEventCount l + 1\<rparr>,
                    c\<lparr>messages := setTextContent currentIndex c0 event (messages c)\<rparr>))
          else if ev_type event = T_thought then
            (l, c\<lparr>messages := addEventToMessage currentIndex event (messages c)\<rparr>)
          else if ev_type event = T_tool_call then
            (l, c\<lparr>messages := addEventToMessage currentIndex event (messages c)\<rparr>)
          else if ev_type event = T_tool_call_result then
            (l, c\<lparr>messages := addEventToMessage currentIndex event (messages c)\<rparr>)
          else if ev_type event = T_requirements_confirmed then (l, c)
          else if ev_type event = T_error then
            (l, c\<lparr>error := data_member event ''message''\<rparr>)
          else (l, c))"

text \<open>
  The text shown when generation starts and the default error text of the generation
  handler, as the UTF-8 bytes of the source's literals.
\<close>

definition generationStartContent :: string where
  "generationStartContent =
     [CHR 0xF0, CHR 0x9F, CHR 0x9A, CHR 0x80, CHR 0x20, CHR 0xE5, CHR 0xBC, CHR 0x80,
      CHR 0xE5, CHR 0xA7, CHR 0x8B, CHR 0xE7, CHR 0x94, CHR 0x9F, CHR 0xE6, CHR 0x88,
      CHR 0x90, CHR 0xE4, CHR 0xBB, CHR 0xA3, CHR 0xE7, CHR 0xA0, CHR 0x81, CHR 0x2E,
      CHR 0x2E, CHR 0x2E, CHR 0x20, CHR 0xE8, CHR 0xAF, CHR 0xB7, CHR 0xE7, CHR 0xA8,
      CHR 0x8D, CHR 0xE5, CHR 0x80, CHR 0x99, CHR 0xEF, CHR 0xBC, CHR 0x8C, CHR 0xE6,
      CHR 0x88, CHR 0x91, CHR 0xE4, CHR 0xBC, CHR 0x9A, CHR 0xE5, CHR 0x9C, CHR 0xA8,
      CHR 0xE5, CHR 0xAE, CHR 0xB9, CHR 0xE5, CHR 0x99, CHR 0xA8, CHR 0xE4, CHR 0xB8,
      CHR 0xAD, CHR 0xE5, CHR 0x88, CHR 0x9B, CHR 0xE5, CHR 0xBB, CHR 0xBA, CHR 0xE6,
      CHR 0x82, CHR 0xA8, CHR 0xE7, CHR 0x9A, CHR 0x84, CHR 0xE5, CHR 0xBA, CHR 0x94,
      CHR 0xE7, CHR 0x94, CHR 0xA8, CHR 0xE7, CHR 0xA8, CHR 0x8B, CHR 0xE5, CHR 0xBA,
      CHR 0x8F, CHR 0xE3, CHR 0x80, CHR 0x82]"

definition generationFailedText :: string where
  "generationFailedText =
     [CHR 0xE4, CHR 0xBB, CHR 0xA3, CHR 0xE7, CHR 0xA0, CHR 0x81, CHR 0xE7, CHR 0x94,
      CHR 0x9F, CHR 0xE6, CHR 0x88, CHR 0x90, CHR 0xE5, CHR 0xA4, CHR 0xB1, CHR 0xE8,
      CHR 0xB4, CHR 0xA5]"

text \<open>The two updaters of the handler that \<^verbatim>\<open>startCodeGeneration\<close> registers.\<close>

definition setLastContent :: "string option \<Rightarrow> message list \<Rightarrow> message list" where
  "setLastContent c prev =
     (if prev = [] then prev
      else
        let lastMessage = last prev in
        if role lastMessage = Assistant then butlast prev @ [lastMessage\<lparr>content := c\<rparr>]
        else prev)"

definition addEventToLast :: "SSEEvent \<Rightarrow> message list \<Rightarrow> message list" where
  "addEventToLast event prev =
     (if prev = [] then prev
      else
        let lastMessage = last prev in
        if role lastMessage = Assistant then
          butlast prev @ [lastMessage\<lparr>events := Some (eventsOrEmpty lastMessage @ [event])\<rparr>]
        else prev)"

text \<open>
  \<^verbatim>\<open>eventHandler\<close> of \<^verbatim>\<open>startCodeGeneration\<close>. It has no set of seen contents and
  no test for an empty content; its unused local \<^verbatim>\<open>currentMessageIndex\<close> is left out.
\<close>

definition generationEventHandler :: "SSEEvent \<Rightarrow> component \<Rightarrow> component" where
  "generationEventHandler event c =
     (if ev_type event = T_text then
        c\<lparr>messages := setLastContent (data_member event ''content'') (messages c)\<rparr>
      else if ev_type event = T_thought \<or> ev_type event = T_tool_call
              \<or> ev_type event = T_tool_call_result then
        c\<lparr>messages := addEventToLast event (messages c)\<rparr>
      else if ev_type event = T_error then
        c\<lparr>error := Some (case data_member event ''message'' of
                            None \<Rightarrow> generationFailedText
                          | Some m \<Rightarrow> if m = [] then generationFailedText else m),
           isGenerating := False\<rparr>
      else if ev_type event = T_done \<or> data_member event ''type'' = Some ''done'' then
        c\<lparr>isGenerating := False\<rparr>
      else c)"

section \<open>The SSE client and the browser's EventSource objects\<close>

text \<open>
  A callback registered with \<^verbatim>\<open>SSEClient.onEvent\<close> is a closure: the handler of one
  \<^verbatim>\<open>handleSendMessage\<close> call with its own locals, or the handler of one
  \<^verbatim>\<open>startCodeGeneration\<close> call, which has none that it uses.
\<close>

datatype callback = ConversationHandler handler_locals | GenerationHandler

text \<open>
  The fields of \<^verbatim>\<open>SSEClient\<close>. An \<^verbatim>\<open>EventSource\<close> object is named by the
  position at which it was created in the list \<open>eventSources\<close> of the page.
\<close>

record SSEClient =
  eventSource :: "nat option"
  callbacks :: "callback list"

text \<open>
  The page: the component, its one \<^verbatim>\<open>SSEClient\<close> (created once by \<^verbatim>\<open>useState\<close>)
  and every \<^verbatim>\<open>EventSource\<close> the client has created so far, each with its URL and
  whether it is still open. An \<^verbatim>\<open>EventSource\<close> stays open until \<^verbatim>\<open>close()\<close> is
  called on it or the browser gives up on it.
\<close>

record page =
  view :: component
  sseClient :: SSEClient
  eventSources :: "(string \<times> bool) list"

definition isOpen :: "nat \<Rightarrow> page \<Rightarrow> bool" where
  "isOpen h p = (h < length (eventSources p) \<and> snd (eventSources p ! h))"

definition markClosed :: "nat \<Rightarrow> (string \<times> bool) list \<Rightarrow> (string \<times> bool) list" where
  "markClosed h srcs = (if h < length srcs then srcs[h := (fst (srcs ! h), False)] else srcs)"

text \<open>
  \<^verbatim>\<open>SSEClient.connect\<close>: neither caller passes a token, so the URL is used as it is.
  The new \<^verbatim>\<open>EventSource\<close> replaces the field; the old object is not closed here.
\<close>

definition connect :: "string \<Rightarrow> page \<Rightarrow> page" where
  "connect url p =
     p\<lparr>sseClient := (sseClient p)\<lparr>eventSource := Some (length (eventSources p))\<rparr>,
       eventSources := eventSources p @ [(url, True)]\<rparr>"

text \<open>\<^verbatim>\<open>SSEClient.close\<close>: closes the current \<^verbatim>\<open>EventSource\<close>, if there is one.\<close>

definition close :: "page \<Rightarrow> page" where
  "close p =
     (case eventSource (sseClient p) of
        None \<Rightarrow> p
      | Some h \<Rightarrow>
          p\<lparr>sseClient := (sseClient p)\<lparr>eventSource := None\<rparr>,
            eventSources := markClosed h (eventSources p)\<rparr>)"

text \<open>\<^verbatim>\<open>SSEClient.onEvent\<close>: the callback is pushed; nothing in the component removes one.\<close>

definition onEvent :: "callback \<Rightarrow> page \<Rightarrow> page" where
  "onEvent cb p = p\<lparr>sseClient := (sseClient p)\<lparr>callbacks := callbacks (sseClient p) @ [cb]\<rparr>\<rparr>"

fun runCallback :: "SSEEvent \<Rightarrow> callback \<Rightarrow> component \<Rightarrow> callback \<times> component" where
  "runCallback event (ConversationHandler l) c =
     (let r = eventHandler event (l, c) in (ConversationHandler (fst r), snd r))"
| "runCallback event GenerationHandler c = (GenerationHandler, generationEventHandler event c)"

text \<open>
  \<^verbatim>\<open>SSEClient.notifyCallbacks\<close>: \<^verbatim>\<open>forEach\<close> over the callbacks in the order of
  registration; each runs on the state its predecessors left.
\<close>

fun forEachCallback :: "SSEEvent \<Rightarrow> callback list \<Rightarrow> component \<Rightarrow> callback list \<times> component" where
  "forEachCallback event [] c = ([], c)"
| "forEachCallback event (cb # cbs) c =
     (let r = runCallback event cb c; rs = forEachCallback event cbs (snd r)
      in (fst r # fst rs, snd rs))"

definition notifyCallbacks :: "SSEEvent \<Rightarrow> page \<Rightarrow> page" where
  "notifyCallbacks event p =
     (let r = forEachCallback event (callbacks (sseClient p)) (view p)
      in p\<lparr>view := snd r, sseClient := (sseClient p)\<lparr>callbacks := fst r\<rparr>\<rparr>)"

text \<open>
  What one message of the stream holds after \<^verbatim>\<open>trim()\<close>: the marker \<^verbatim>\<open>[DONE]\<close>,
  JSON that parses to an event, or text that \<^verbatim>\<open>JSON.parse\<close> rejects (logged, ignored).
\<close>

datatype sse_message = DoneMarker | EventJson SSEEvent | Unparsable

text \<open>
  \<^verbatim>\<open>onmessage\<close> of the \<^verbatim>\<open>EventSource\<close> \<open>h\<close>; a closed \<^verbatim>\<open>EventSource\<close> delivers
  nothing. On \<^verbatim>\<open>[DONE]\<close> the handler calls \<^verbatim>\<open>this.close()\<close>, which closes the
  client's current \<^verbatim>\<open>EventSource\<close>.
\<close>

definition onmessage :: "nat \<Rightarrow> sse_message \<Rightarrow> page \<Rightarrow> page" where
  "onmessage h m p =
     (if \<not> isOpen h p then p
      else case m of
        DoneMarker \<Rightarrow> close p
      | EventJson event \<Rightarrow> notifyCallbacks event p
      | Unparsable \<Rightarrow> p)"

text \<open>
  \<^verbatim>\<open>onerror\<close> of the \<^verbatim>\<open>EventSource\<close> \<open>h\<close>. \<open>gaveUp\<close> says that the browser has put
  \<open>h\<close> into the state \<^verbatim>\<open>CLOSED\<close> instead of reconnecting. The handler closes the client
  only when its current \<^verbatim>\<open>EventSource\<close> is in that state.
\<close>

definition onerror :: "nat \<Rightarrow> bool \<Rightarrow> page \<Rightarrow> page" where
  "onerror h gaveUp p =
     (if \<not> isOpen h p then p
      else
        let p1 = (if gaveUp then p\<lparr>eventSources := markClosed h (eventSources p)\<rparr> else p) in
        case eventSource (sseClient p1) of
          None \<Rightarrow> p1
        | Some cur \<Rightarrow> if \<not> isOpen cur p1 then close p1 else p1)"

section \<open>Operations of the component\<close>

text \<open>
  \<^verbatim>\<open>handleSendMessage\<close> up to its \<^verbatim>\<open>await\<close>: the user message and an empty
  assistant message are appended and the ref is set to the index of the latter.
  \<open>now\<close> is \<^verbatim>\<open>new Date().toISOString()\<close>.
\<close>

definition handleSendMessage_begin :: "string \<Rightarrow> string \<Rightarrow> page \<Rightarrow> page" where
  "handleSendMessage_begin msg now p =
     (let prev = messages (view p);
          userMessage = \<lparr>role = User, content = Some msg, timestamp = now, events = None\<rparr>;
          assistantMessage = \<lparr>role = Assistant, content = Some [], timestamp = now,
                              events = Some []\<rparr>;
          newAssistantIndex = length prev + 1
      in p\<lparr>view := (view p)\<lparr>error := None, loading := True,
                currentAssistantMessageIndexRef := Some newAssistantIndex,
                messages := prev @ [userMessage, assistantMessage]\<rparr>\<rparr>)"

text \<open>
  The outcome of \<^verbatim>\<open>await conversationAPI.sendMessage(...)\<close>: it returns, or it throws
  an error that may carry \<^verbatim>\<open>response.data.message\<close>.
\<close>

datatype send_outcome = Sent | SendFailed "string option"

text \<open>
  \<^verbatim>\<open>handleSendMessage\<close> after its \<^verbatim>\<open>await\<close>. On success the previous connection is
  closed, a handler with an empty \<^verbatim>\<open>sentMessageHashes\<close> and a zero
  \<^verbatim>\<open>textEventCount\<close> is registered and the stream is opened; \<^verbatim>\<open>finally\<close> clears
  \<^verbatim>\<open>loading\<close> on both paths.
\<close>

definition handleSendMessage_resume :: "send_outcome \<Rightarrow> string \<Rightarrow> page \<Rightarrow> page" where
  "handleSendMessage_resume outcome streamUrl p =
     (case outcome of
        Sent \<Rightarrow>
          (let p1 = close p;
               p2 = onEvent (ConversationHandler
                      \<lparr>sentMessageHashes = {}, textEventCount = 0\<rparr>) p1;
               p3 = connect streamUrl p2
           in p3\<lparr>view := (view p3)\<lparr>loading := False\<rparr>\<rparr>)
      | SendFailed m \<Rightarrow>
          p\<lparr>view := (view p)\<lparr>
               error := Some (case m of None \<Rightarrow> ''Failed to send message''
                              | Some t \<Rightarrow> if t = [] then ''Failed to send message'' else t),
               currentAssistantMessageIndexRef := None,
               loading := False\<rparr>\<rparr>)"

definition handleSendMessage :: "string \<Rightarrow> string \<Rightarrow> send_outcome \<Rightarrow> string \<Rightarrow> page \<Rightarrow> page" where
  "handleSendMessage msg now outcome streamUrl p =
     handleSendMessage_resume outcome streamUrl (handleSendMessage_begin msg now p)"

datatype ApplicationStatus =
  S_draft | S_requirements_confirmed | S_generating | S_deploying | S_running | S_stopped
  | S_error

definition isCodeGenerating :: "ApplicationStatus \<Rightarrow> bool" where
  "isCodeGenerating status = (status = S_generating \<or> status = S_deploying)"

definition canStartGeneration :: "ApplicationStatus \<Rightarrow> bool" where
  "canStartGeneration status = (status = S_requirements_confirmed \<and> \<not> isCodeGenerating status)"

text \<open>\<^verbatim>\<open>startCodeGeneration\<close>; nothing in its \<^verbatim>\<open>try\<close> block throws in this model.\<close>

definition startCodeGeneration :: "ApplicationStatus \<Rightarrow> string \<Rightarrow> string \<Rightarrow> page \<Rightarrow> page" where
  "startCodeGeneration status now streamUrl p =
     (if \<not> canStartGeneration status \<or> isGenerating (view p) then p
      else
        let p0 = p\<lparr>view := (view p)\<lparr>isGenerating := True, error := None,
                      messages := messages (view p)
                        @ [\<lparr>role = Assistant, content = Some generationStartContent,
                            timestamp = now, events = Some []\<rparr>]\<rparr>\<rparr>;
            p1 = close p0;
            p2 = onEvent GenerationHandler p1
        in connect streamUrl p2)"

text \<open>
  \<^verbatim>\<open>loadConversation\<close>, run when the component mounts. \<open>Loaded ms\<close> is the
  conversation that \<^verbatim>\<open>conversationAPI.get\<close> returned, \<open>LoadFailed\<close> a request that
  threw (logged only).
\<close>

datatype load_outcome = Loaded "message list" | LoadFailed

definition formatMessage :: "message \<Rightarrow> message" where
  "formatMessage msg =
     \<lparr>role = role msg, content = content msg, timestamp = timestamp msg,
      events = Some (eventsOrEmpty msg)\<rparr>"

definition loadConversation :: "load_outcome \<Rightarrow> page \<Rightarrow> page" where
  "loadConversation outcome p =
     (case outcome of
        LoadFailed \<Rightarrow> p
      | Loaded ms \<Rightarrow>
          if ms \<noteq> [] then
            p\<lparr>view := (view p)\<lparr>messages := map formatMessage ms,
                       currentAssistantMessageIndexRef := None\<rparr>\<rparr>
          else p)"

text \<open>The cleanup of the mount effect: the connection is closed and the ref is reset.\<close>

definition unmount :: "page \<Rightarrow> page" where
  "unmount p =
     (let p1 = close p in p1\<lparr>view := (view p1)\<lparr>currentAssistantMessageIndexRef := None\<rparr>\<rparr>)"

definition initialComponent :: component where
  "initialComponent =
     \<lparr>messages = [], loading = False, error = None, isGenerating = False,
      currentAssistantMessageIndexRef = None\<rparr>"

definition initialPage :: page where
  "initialPage =
     \<lparr>view = initialComponent,
      sseClient = \<lparr>eventSource = None, callbacks = []\<rparr>,
      eventSources = []\<rparr>"

section \<open>Streams of events and the frame of a handler\<close>

text \<open>
  One handler of \<^verbatim>\<open>handleSendMessage\<close> receiving the events of a stream in their
  order of arrival, and the same for the handler of \<^verbatim>\<open>startCodeGeneration\<close>.
\<close>

fun handleEvents :: "SSEEvent list \<Rightarrow> handler_locals \<times> component \<Rightarrow> handler_locals \<times> component" where
  "handleEvents [] s = s"
| "handleEvents (e # es) s = handleEvents es (eventHandler e s)"

fun handleGenerationEvents :: "SSEEvent list \<Rightarrow> component \<Rightarrow> component" where
  "handleGenerationEvents [] c = c"
| "handleGenerationEvents (e # es) c = handleGenerationEvents es (generationEventHandler e c)"

text \<open>
  What no handler changes in the message list: its length, the role at every position,
  and the events already attached to a message, which stay a prefix of its events.
\<close>

definition keeps :: "message list \<Rightarrow> message list \<Rightarrow> bool" where
  "keeps old new =
     (length new = length old \<and>
      (\<forall>j < length old. role (new ! j) = role (old ! j)
          \<and> prefix (eventsOrEmpty (old ! j)) (eventsOrEmpty (new ! j))))"

text \<open>Events used in the examples.\<close>

definition textEvent :: "string \<Rightarrow> SSEEvent" where
  "textEvent c0 = \<lparr>ev_type = T_text, ev_data = [(''content'', c0)], ev_timestamp = ''t''\<rparr>"

definition thoughtEvent :: "string \<Rightarrow> SSEEvent" where
  "thoughtEvent c0 = \<lparr>ev_type = T_thought, ev_data = [(''content'', c0)], ev_timestamp = ''t''\<rparr>"

text \<open>
  What a text event offers to the check against \<^verbatim>\<open>sentMessageHashes\<close>: its content,
  when it has one that is not empty (the handler returns early on a missing or empty
  content); events of the other kinds offer nothing.
\<close>

definition offeredText :: "SSEEvent \<Rightarrow> string set" where
  "offeredText e =
     (if ev_type e = T_text then
        (case data_member e ''content'' of None \<Rightarrow> {} | Some d \<Rightarrow> if d = [] then {} else {d})
      else {})"

section \<open>The page as a transition system\<close>

text \<open>
  What can happen to the page: the two halves of \<^verbatim>\<open>handleSendMessage\<close> around its
  \<^verbatim>\<open>await\<close> (so that events may arrive in between), \<^verbatim>\<open>startCodeGeneration\<close>, a
  message or an error on an \<^verbatim>\<open>EventSource\<close>, the end of \<^verbatim>\<open>loadConversation\<close>, and
  the cleanup on unmount.
\<close>

datatype action =
    SendBegin string string
  | SendResume send_outcome string
  | StartGeneration ApplicationStatus string string
  | StreamMessage nat sse_message
  | StreamError nat bool
  | Load load_outcome
  | Unmount

fun perform :: "action \<Rightarrow> page \<Rightarrow> page" where
  "perform (SendBegin msg now) p = handleSendMessage_begin msg now p"
| "perform (SendResume outcome url) p = handleSendMessage_resume outcome url p"
| "perform (StartGeneration status now url) p = startCodeGeneration status now url p"
| "perform (StreamMessage h m) p = onmessage h m p"
| "perform (StreamError h gaveUp) p = onerror h gaveUp p"
| "perform (Load outcome) p = loadConversation outcome p"
| "perform Unmount p = unmount p"

fun performAll :: "action list \<Rightarrow> page \<Rightarrow> page" where
  "performAll [] p = p"
| "performAll (a # as) p = performAll as (perform a p)"

text \<open>Every \<^verbatim>\<open>EventSource\<close> that is still open is the client's current one.\<close>

definition onlyCurrentOpen :: "page \<Rightarrow> bool" where
  "onlyCurrentOpen p = (\<forall>h. isOpen h p \<longrightarrow> eventSource (sseClient p) = Some h)"

text \<open>
  The ref, when it is set, is the index of an assistant message of the list.
\<close>

definition refValid :: "component \<Rightarrow> bool" where
  "refValid c =
     (case currentAssistantMessageIndexRef c of
        None \<Rightarrow> True
      | Some i \<Rightarrow> i < length (messages c) \<and> role (messages c ! i) = Assistant)"

text \<open>Two stored messages used in the examples.\<close>

definition storedUser :: message where
  "storedUser = \<lparr>role = User, content = Some ''q1'', timestamp = ''n1'', events = None\<rparr>"

definition storedAssistant :: message where
  "storedAssistant =
     \<lparr>role = Assistant, content = Some ''r1'', timestamp = ''n1'', events = Some []\<rparr>"

section \<open>The API layer's record of the assistant text (DUPLICATE_MESSAGE_FIX.md)\<close>

text \<open>
  The text branch of \<^verbatim>\<open>event_generator\<close> in \<^verbatim>\<open>backend/src/api/conversations.py\<close>, as
  quoted in \<^verbatim>\<open>DUPLICATE_MESSAGE_FIX.md\<close>: the set \<^verbatim>\<open>seen_text_contents\<close> and the
  string \<^verbatim>\<open>assistant_content\<close> that is stored as the assistant message when the stream
  ends. A content that is missing reads as the empty string. (\<open>length\<close> counts bytes
  where Python's \<^verbatim>\<open>len\<close> counts code points; the examples are ASCII.)
\<close>

record api_locals =
  seen_text_contents :: "string set"
  assistant_content :: string

definition event_generator_text :: "SSEEvent \<Rightarrow> api_locals \<Rightarrow> api_locals" where
  "event_generator_text event_data s =
     (if ev_type event_data = T_text then
        (let c = (case data_member event_data ''content'' of None \<Rightarrow> [] | Some c0 \<Rightarrow> c0) in
         if c \<noteq> [] then
           (if c \<notin> seen_text_contents s then
              s\<lparr>seen_text_contents := insert c (seen_text_contents s), assistant_content := c\<rparr>
            else if length c > length (assistant_content s) then s\<lparr>assistant_content := c\<rparr>
            else s)
         else s)
      else s)"

fun event_generator :: "SSEEvent list \<Rightarrow> api_locals \<Rightarrow> api_locals" where
  "event_generator [] s = s"
| "event_generator (e # es) s = event_generator es (event_generator_text e s)"

section \<open>What an event of the stream may change\<close>

text \<open>
  The most that the handlers do to one message when the event \<open>e\<close> arrives, whatever
  callbacks are registered and however often they run: the message is left as it is, or
  it is an assistant message before and after, and its content and timestamp are kept or
  (for a text event) its content becomes the content of \<open>e\<close> and its timestamp is kept
  or becomes the timestamp of \<open>e\<close>, and its events are kept or (for a
  \<^verbatim>\<open>thought\<close>, \<^verbatim>\<open>tool_call\<close> or \<^verbatim>\<open>tool_call_result\<close> event) grow by copies of
  \<open>e\<close> at the end. A user message is never written.
\<close>

definition written :: "SSEEvent \<Rightarrow> message \<Rightarrow> message \<Rightarrow> bool" where
  "written e old new =
     (new = old \<or>
      (role old = Assistant \<and> role new = Assistant
       \<and> ((content new = content old \<and> timestamp new = timestamp old)
            \<or> (ev_type e = T_text \<and> content new = data_member e ''content''
                \<and> (timestamp new = timestamp old \<or> timestamp new = ev_timestamp e)))
       \<and> (events new = events old
            \<or> ((ev_type e = T_thought \<or> ev_type e = T_tool_call
                  \<or> ev_type e = T_tool_call_result)
                \<and> events new
                    = Some (eventsOrEmpty old
                        @ replicate (length (eventsOrEmpty new) - length (eventsOrEmpty old)) e)))))"

text \<open>
  The list of messages after the event, against the list before: the same length, and
  every position holds the message it held, written at most as above. So no message is
  removed, inserted or moved.
\<close>

definition framed :: "SSEEvent \<Rightarrow> message list \<Rightarrow> message list \<Rightarrow> bool" where
  "framed e old new =
     (length new = length old \<and> (\<forall>j < length old. written e (old ! j) (new ! j)))"

text \<open>
  The positions that may differ after the event: the one the ref names afterwards, and
  the last one.
\<close>

definition changedOnlyAt :: "component \<Rightarrow> component \<Rightarrow> bool" where
  "changedOnlyAt c c' =
     (\<forall>j < length (messages c). messages c' ! j \<noteq> messages c ! j \<longrightarrow>
        currentAssistantMessageIndexRef c' = Some j \<or> Suc j = length (messages c))"

section \<open>The dialogue state machine of the agent\<close>

text \<open>
  Modelled from the spec: the agent that runs the dialogue
  (\<^verbatim>\<open>backend/src/agents/app_creator/agent.py\<close>) and the API layer that streams it
  (\<^verbatim>\<open>backend/src/api/conversations.py\<close>) are not among the sources; only notes about
  them are. The stages are those of section 4.1 of the spec.
\<close>

datatype stage =
  Converse | ExtractRequirements | GenerateClarifications | Confirm | Handoff | Done | Failed

text \<open>
  Modelled from the spec: the RequirementsSnapshot of section 3, the requirements text
  (absent until extracted) and the list of outstanding clarifying questions.
\<close>

record RequirementsSnapshot =
  requirements :: "string option"
  clarifyingQuestions :: "string list"

text \<open>
  Modelled from the spec: the EmittedUnit of section 3, with its kind, its payload, the
  turn that owns it and the stage execution that produced it (stage name and sequence
  number within the turn).
\<close>

datatype unit_kind = ReasoningNote | ToolInvocation | ToolResult | AssistantText | ErrorUnit

record EmittedUnit =
  kind :: unit_kind
  payload :: string
  owningTurn :: nat
  producedBy :: stage
  executionNo :: nat

text \<open>
  Modelled from the spec: the failures of section 7. An ExtractionError is treated as a
  CompletionServiceError; both carry a human-readable cause.
\<close>

datatype failure = CompletionServiceError string | ExtractionError string

fun cause :: "failure \<Rightarrow> string" where
  "cause (CompletionServiceError m) = m"
| "cause (ExtractionError m) = m"

text \<open>
  Modelled from the spec: the collaborators of section 6, each a function of its input
  that returns a result or fails, and the text with which the Confirm stage summarises
  the requirements and asks for confirmation, a fixed function of the snapshot.
\<close>

record collaborators =
  complete :: "string list \<Rightarrow> failure + string"
  extractSnapshot :: "string list \<Rightarrow> failure + RequirementsSnapshot option"
  clarify :: "string \<Rightarrow> failure + string list"
  confirmationText :: "RequirementsSnapshot \<Rightarrow> string"

text \<open>
  Modelled from the spec: a turn in flight (sections 3 and 4.1): the stage the machine
  is in, the snapshot, the flag \<open>requirementsConfirmed\<close>, the messages so far, the
  units produced so far in production order, the stages that have called a collaborator
  so far, and the number of stage executions so far.
\<close>

record turn =
  turnId :: nat
  stage :: stage
  snapshot :: RequirementsSnapshot
  requirementsConfirmed :: bool
  dialogue :: "string list"
  units :: "EmittedUnit list"
  serviceCalls :: "stage list"
  executions :: nat

text \<open>
  Modelled from the spec: the snapshot is finalized when the requirements are present
  and the list of clarifying questions is empty.
\<close>

definition finalized :: "RequirementsSnapshot \<Rightarrow> bool" where
  "finalized s = (requirements s \<noteq> None \<and> clarifyingQuestions s = [])"

text \<open>Modelled from the spec: the transition rule evaluated after every Converse execution.\<close>

definition transitionRule :: "RequirementsSnapshot \<Rightarrow> stage" where
  "transitionRule s =
     (case requirements s of
        None \<Rightarrow> ExtractRequirements
      | Some r \<Rightarrow> if clarifyingQuestions s \<noteq> [] then GenerateClarifications else Confirm)"

text \<open>Modelled from the spec: a stage execution produces a unit of the running turn.\<close>

definition emit :: "unit_kind \<Rightarrow> string \<Rightarrow> turn \<Rightarrow> turn" where
  "emit k text t =
     t\<lparr>units := units t
          @ [\<lparr>kind = k, payload = text, owningTurn = turnId t, producedBy = stage t,
               executionNo = executions t\<rparr>]\<rparr>"

text \<open>
  Modelled from the spec: the failure semantics of section 4.1. A failed call surfaces as
  one error unit with the cause and ends the turn in \<open>Failed\<close>; the snapshot is not
  touched.
\<close>

definition failTurn :: "failure \<Rightarrow> turn \<Rightarrow> turn" where
  "failTurn f t = (emit ErrorUnit (cause f) t)\<lparr>stage := Failed\<rparr>"

text \<open>
  Modelled from the spec: one execution of the current stage (section 4.1).
  Converse with a finalized snapshot calls nothing and produces nothing, and re-enters
  the transition rule; otherwise it calls the completion service and produces its text.
  ExtractRequirements and GenerateClarifications populate the snapshot and return to
  Converse (an extraction that yields nothing leaves the snapshot as it is; without
  requirements there is nothing to clarify). Confirm produces the one confirmation
  text, sets \<open>requirementsConfirmed\<close> and ends the turn in \<open>Done\<close>. Handoff only signals
  the code generator, which is outside the core. \<open>Done\<close> and \<open>Failed\<close> are terminal.
\<close>

definition executeStage :: "collaborators \<Rightarrow> turn \<Rightarrow> turn" where
  "executeStage env t =
     (let t1 = t\<lparr>executions := executions t + 1\<rparr> in
      case stage t of
        Converse \<Rightarrow>
          if finalized (snapshot t) then t1\<lparr>stage := transitionRule (snapshot t)\<rparr>
          else
            (let t2 = t1\<lparr>serviceCalls := serviceCalls t @ [Converse]\<rparr> in
             case complete env (dialogue t) of
               Inl f \<Rightarrow> failTurn f t2
             | Inr text \<Rightarrow>
                 (emit AssistantText text t2)
                   \<lparr>dialogue := dialogue t @ [text],
                    stage := transitionRule (snapshot t)\<rparr>)
      | ExtractRequirements \<Rightarrow>
          (let t2 = t1\<lparr>serviceCalls := serviceCalls t @ [ExtractRequirements]\<rparr> in
           case extractSnapshot env (dialogue t) of
             Inl f \<Rightarrow> failTurn f t2
           | Inr None \<Rightarrow> t2\<lparr>stage := Converse\<rparr>
           | Inr (Some s) \<Rightarrow> t2\<lparr>snapshot := s, stage := Converse\<rparr>)
      | GenerateClarifications \<Rightarrow>
          (case requirements (snapshot t) of
             None \<Rightarrow> t1\<lparr>stage := Converse\<rparr>
           | Some r \<Rightarrow>
               (let t2 = t1\<lparr>serviceCalls := serviceCalls t @ [GenerateClarifications]\<rparr> in
                case clarify env r of
                  Inl f \<Rightarrow> failTurn f t2
                | Inr qs \<Rightarrow>
                    t2\<lparr>snapshot := (snapshot t)\<lparr>clarifyingQuestions := qs\<rparr>,
                       stage := Converse\<rparr>))
      | Confirm \<Rightarrow>
          (emit AssistantText (confirmationText env (snapshot t)) t1)
            \<lparr>requirementsConfirmed := True, stage := Done\<rparr>
      | Handoff \<Rightarrow> t1\<lparr>stage := Done\<rparr>
      | Done \<Rightarrow> t
      | Failed \<Rightarrow> t)"

text \<open>Modelled from the spec: the terminal states \<open>Done\<close> and \<open>Failed\<close> of section 4.1.\<close>

definition terminal :: "turn \<Rightarrow> bool" where
  "terminal t = (stage t = Done \<or> stage t = Failed)"

text \<open>
  Modelled from the spec: a turn runs its stage executions one after the other until it
  is terminal. The spec does not say how a turn that still has questions to ask comes to
  an end, so the run is bounded by the number of executions it may make.
\<close>

fun runTurn :: "collaborators \<Rightarrow> nat \<Rightarrow> turn \<Rightarrow> turn" where
  "runTurn env 0 t = t"
| "runTurn env (Suc n) t = (if terminal t then t else runTurn env n (executeStage env t))"

text \<open>
  Modelled from the spec: the first turn of a conversation, and the turn that the Turn
  Coordinator starts for a user message (sections 4.4 and 7). The initial stage is
  Converse; the snapshot and the flag are carried over from the turn before. While that
  turn is in flight its lock is held and no turn is started (\<open>None\<close>); a turn that has
  reached \<open>Done\<close> or \<open>Failed\<close> has released it.
\<close>

definition firstTurn :: "string \<Rightarrow> turn" where
  "firstTurn msg =
     \<lparr>turnId = 0, stage = Converse,
      snapshot = \<lparr>requirements = None, clarifyingQuestions = []\<rparr>,
      requirementsConfirmed = False, dialogue = [msg], units = [], serviceCalls = [],
      executions = 0\<rparr>"

definition submit :: "string \<Rightarrow> turn \<Rightarrow> turn option" where
  "submit msg prev =
     (if terminal prev then
        Some \<lparr>turnId = turnId prev + 1, stage = Converse, snapshot = snapshot prev,
              requirementsConfirmed = requirementsConfirmed prev,
              dialogue = dialogue prev @ [msg], units = [], serviceCalls = [],
              executions = 0\<rparr>
      else None)"

text \<open>
  Modelled from the spec: the call that the current stage makes fails (section 4.1 names
  the three stages that call a collaborator).
\<close>

definition callFails :: "collaborators \<Rightarrow> turn \<Rightarrow> failure \<Rightarrow> bool" where
  "callFails env t f =
     (case stage t of
        Converse \<Rightarrow> \<not> finalized (snapshot t) \<and> complete env (dialogue t) = Inl f
      | ExtractRequirements \<Rightarrow> extractSnapshot env (dialogue t) = Inl f
      | GenerateClarifications \<Rightarrow>
          (case requirements (snapshot t) of
             None \<Rightarrow> False
           | Some r \<Rightarrow> clarify env r = Inl f)
      | Confirm \<Rightarrow> False | Handoff \<Rightarrow> False | Done \<Rightarrow> False | Failed \<Rightarrow> False)"

text \<open>Modelled from the spec: the error units among the units of a turn.\<close>

definition errorUnits :: "turn \<Rightarrow> EmittedUnit list" where
  "errorUnits t = filter (\<lambda>u. kind u = ErrorUnit) (units t)"

text \<open>
  Collaborators used in the examples, in which the extraction fails, and a turn that
  starts with a finalized snapshot.
\<close>

definition failingExtraction :: collaborators where
  "failingExtraction =
     \<lparr>complete = (\<lambda>d. Inr ''Tell me more''),
      extractSnapshot = (\<lambda>d. Inl (CompletionServiceError ''service unavailable'')),
      clarify = (\<lambda>r. Inr []),
      confirmationText = (\<lambda>s. ''Please confirm'')\<rparr>"

definition finalizedTurn :: turn where
  "finalizedTurn =
     \<lparr>turnId = 1, stage = Converse,
      snapshot = \<lparr>requirements = Some ''a todo list'', clarifyingQuestions = []\<rparr>,
      requirementsConfirmed = False, dialogue = [''a todo list'', ''yes''], units = [],
      serviceCalls = [], executions = 0\<rparr>"

text \<open>
  Modelled from the spec: "exactly one error unit per failed turn" (section 7) as an
  invariant of a turn: it holds one error unit when it has failed and none otherwise.
\<close>

definition oneErrorIfFailed :: "turn \<Rightarrow> bool" where
  "oneErrorIfFailed t = (length (errorUnits t) = (if stage t = Failed then 1 else 0))"

section \<open>The Emitter and its ledger\<close>

text \<open>
  Modelled from the spec: the wire event of section 6, the tagged record that the Emitter
  produces for a transport to serialize. The Emitter is part of the backend, which is not
  among the sources; the client-side declaration \<^verbatim>\<open>SSEEvent\<close> has a type, a data
  and a timestamp and neither a turn id nor a sequence.
\<close>

datatype wire_kind = W_reasoning | W_tool_call | W_tool_result | W_text | W_error | W_done









section \<open>Properties of the handlers and of the client\<close>

subsection \<open>The updaters as list updates\<close>

lemma setTextContent_conv:
  "setTextContent i c0 e prev =
     (if i < length prev \<and> role (prev ! i) = Assistant
      then prev[i := (prev ! i)\<lparr>content := Some c0,
             timestamp := (if ev_timestamp e \<noteq> [] then ev_timestamp e else timestamp (prev ! i))\<rparr>]
      else prev)"
  by (simp add: setTextContent_def Let_def upd_conv_take_nth_drop)

lemma addEventToMessage_conv:
  "addEventToMessage i e prev =
     (if i < length prev \<and> role (prev ! i) = Assistant
      then prev[i := (prev ! i)\<lparr>events := Some (eventsOrEmpty (prev ! i) @ [e])\<rparr>]
      else prev)"
  by (simp add: addEventToMessage_def Let_def upd_conv_take_nth_drop)

lemma butlast_snoc_conv: "prev \<noteq> [] \<Longrightarrow> butlast prev @ [x] = prev[length prev - 1 := x]"
  by (induction prev rule: rev_induct) (simp_all add: list_update_append)

lemma last_conv: "prev \<noteq> [] \<Longrightarrow> last prev = prev ! (length prev - 1)"
  by (simp add: last_conv_nth)

lemma setLastContent_conv:
  "setLastContent c0 prev =
     (if prev \<noteq> [] \<and> role (prev ! (length prev - 1)) = Assistant
      then prev[length prev - 1 := (prev ! (length prev - 1))\<lparr>content := c0\<rparr>]
      else prev)"
  by (simp add: setLastContent_def Let_def butlast_snoc_conv last_conv)

lemma addEventToLast_conv:
  "addEventToLast e prev =
     (if prev \<noteq> [] \<and> role (prev ! (length prev - 1)) = Assistant
      then prev[length prev - 1 :=
             (prev ! (length prev - 1))\<lparr>events := Some (eventsOrEmpty (prev ! (length prev - 1)) @ [e])\<rparr>]
      else prev)"
  by (simp add: addEventToLast_def Let_def butlast_snoc_conv last_conv)

lemma keeps_refl: "keeps xs xs"
  by (simp add: keeps_def)

lemma keeps_trans: "keeps xs ys \<Longrightarrow> keeps ys zs \<Longrightarrow> keeps xs zs"
  unfolding keeps_def by (metis prefix_order.order_trans)

lemma keeps_setTextContent: "keeps prev (setTextContent i c0 e prev)"
  by (auto simp: keeps_def setTextContent_conv nth_list_update eventsOrEmpty_def)

lemma keeps_addEventToMessage: "keeps prev (addEventToMessage i e prev)"
  by (auto simp: keeps_def addEventToMessage_conv nth_list_update eventsOrEmpty_def)

lemma keeps_setLastContent: "keeps prev (setLastContent c0 prev)"
  by (auto simp: keeps_def setLastContent_conv nth_list_update eventsOrEmpty_def)

lemma keeps_addEventToLast: "keeps prev (addEventToLast e prev)"
  by (auto simp: keeps_def addEventToLast_conv nth_list_update eventsOrEmpty_def)

lemma messages_resolveIndex [simp]: "messages (resolveIndex c) = messages c"
  by (simp add: resolveIndex_def split: option.splits)

lemma ref_resolveIndex_Some [simp]:
  "currentAssistantMessageIndexRef c = Some i \<Longrightarrow> resolveIndex c = c"
  by (simp add: resolveIndex_def)

lemma keeps_eventHandler: "keeps (messages c) (messages (snd (eventHandler e (l, c))))"
  by (auto simp: eventHandler_def Let_def keeps_refl keeps_setTextContent keeps_addEventToMessage
           split: option.splits)

lemma keeps_generationEventHandler: "keeps (messages c) (messages (generationEventHandler e c))"
  by (auto simp: generationEventHandler_def keeps_refl keeps_setLastContent keeps_addEventToLast)

lemma ref_eventHandler:
  "currentAssistantMessageIndexRef c = Some i \<Longrightarrow>
   currentAssistantMessageIndexRef (snd (eventHandler e (l, c))) = Some i"
  by (auto simp: eventHandler_def Let_def split: option.splits)

lemma ref_generationEventHandler [simp]:
  "currentAssistantMessageIndexRef (generationEventHandler e c) = currentAssistantMessageIndexRef c"
  by (auto simp: generationEventHandler_def)

lemma handleEvents_append: "handleEvents (xs @ ys) s = handleEvents ys (handleEvents xs s)"
  by (induction xs arbitrary: s) simp_all

lemma handleGenerationEvents_append:
  "handleGenerationEvents (xs @ ys) c = handleGenerationEvents ys (handleGenerationEvents xs c)"
  by (induction xs arbitrary: c) simp_all

lemma count_mono_step: "textEventCount (fst s) \<le> textEventCount (fst (eventHandler e s))"
  by (auto simp: eventHandler_def Let_def split: option.splits)

lemma count_mono_run: "textEventCount (fst s) \<le> textEventCount (fst (handleEvents es s))"
proof (induction es arbitrary: s)
  case Nil
  show ?case by simp
next
  case (Cons e es)
  have "textEventCount (fst s) \<le> textEventCount (fst (eventHandler e s))"
    by (rule count_mono_step)
  also have "\<dots> \<le> textEventCount (fst (handleEvents es (eventHandler e s)))"
    by (rule Cons.IH)
  finally show ?case by simp
qed

lemma map_update_same: "(map f xs)[i := f (xs ! i)] = map f xs"
  by (metis list_update_id map_update)

lemma accepted_step:
  assumes "currentAssistantMessageIndexRef (snd s) = Some i"
    and "i < length (messages (snd s))"
    and "role (messages (snd s) ! i) = Assistant"
    and "textEventCount (fst (eventHandler e s)) \<noteq> textEventCount (fst s)"
  shows "ev_type e = T_text \<and> content (messages (snd (eventHandler e s)) ! i) = data_member e ''content''"
  using assms
  by (cases s) (auto simp: eventHandler_def Let_def setTextContent_conv split: option.splits if_splits)

lemma rejected_step:
  assumes "textEventCount (fst (eventHandler e s)) = textEventCount (fst s)"
  shows "map content (messages (snd (eventHandler e s))) = map content (messages (snd s))"
  using assms
  by (cases s)
     (auto simp: eventHandler_def Let_def addEventToMessage_conv map_update map_update_same
           split: option.splits if_splits)

lemma rejected_run:
  "textEventCount (fst (handleEvents es s)) = textEventCount (fst s) \<Longrightarrow>
   map content (messages (snd (handleEvents es s))) = map content (messages (snd s))"
proof (induction es arbitrary: s)
  case Nil
  show ?case by simp
next
  case (Cons e es)
  let ?s' = "eventHandler e s"
  have a: "textEventCount (fst s) \<le> textEventCount (fst ?s')" by (rule count_mono_step)
  have b: "textEventCount (fst ?s') \<le> textEventCount (fst (handleEvents es ?s'))"
    by (rule count_mono_run)
  from Cons.prems a b have e1: "textEventCount (fst ?s') = textEventCount (fst s)"
    and e2: "textEventCount (fst (handleEvents es ?s')) = textEventCount (fst ?s')" by simp_all
  from Cons.IH [OF e2] rejected_step [OF e1] show ?case by simp
qed

lemma frame_step:
  assumes "currentAssistantMessageIndexRef (snd s) = Some i"
  shows "currentAssistantMessageIndexRef (snd (eventHandler e s)) = Some i
       \<and> keeps (messages (snd s)) (messages (snd (eventHandler e s)))"
  using assms ref_eventHandler [of "snd s" i e "fst s"] keeps_eventHandler [of "snd s" e "fst s"]
  by simp

lemma frame_run:
  "currentAssistantMessageIndexRef (snd s) = Some i \<Longrightarrow>
   currentAssistantMessageIndexRef (snd (handleEvents es s)) = Some i
     \<and> keeps (messages (snd s)) (messages (snd (handleEvents es s)))"
proof (induction es arbitrary: s)
  case Nil
  show ?case using Nil by (simp add: keeps_refl)
next
  case (Cons e es)
  from frame_step [OF Cons.prems, of e]
  have r: "currentAssistantMessageIndexRef (snd (eventHandler e s)) = Some i"
    and k: "keeps (messages (snd s)) (messages (snd (eventHandler e s)))" by simp_all
  from Cons.IH [OF r] k show ?case by (auto intro: keeps_trans)
qed

lemma generation_text_step:
  assumes "messages g \<noteq> []" and "role (last (messages g)) = Assistant" and "ev_type e = T_text"
  shows "content (last (messages (generationEventHandler e g))) = data_member e ''content''"
  using assms by (simp add: generationEventHandler_def setLastContent_def Let_def)

lemma generation_other_step:
  "ev_type e \<noteq> T_text \<Longrightarrow>
   map content (messages (generationEventHandler e g)) = map content (messages g)"
  by (auto simp: generationEventHandler_def addEventToLast_conv map_update map_update_same)

lemma generation_other_run:
  "\<forall>e \<in> set es. ev_type e \<noteq> T_text \<Longrightarrow>
   map content (messages (handleGenerationEvents es g)) = map content (messages g)"
  by (induction es arbitrary: g) (simp_all add: generation_other_step)

lemma generation_frame_run:
  "keeps (messages g) (messages (handleGenerationEvents es g))"
proof (induction es arbitrary: g)
  case Nil
  show ?case by (simp add: keeps_refl)
next
  case (Cons e es)
  show ?case using keeps_generationEventHandler [of g e] Cons.IH [of "generationEventHandler e g"]
    by (auto intro: keeps_trans)
qed

lemma keeps_last_role:
  "keeps xs ys \<Longrightarrow> xs \<noteq> [] \<Longrightarrow> ys \<noteq> [] \<and> role (last ys) = role (last xs)"
proof -
  assume k: "keeps xs ys" and n: "xs \<noteq> []"
  from k have len: "length ys = length xs" by (simp add: keeps_def)
  with n have n': "ys \<noteq> []" by auto
  from n have "length xs - 1 < length xs" by simp
  with k have "role (ys ! (length xs - 1)) = role (xs ! (length xs - 1))" by (simp add: keeps_def)
  with n n' len show ?thesis by (simp add: last_conv_nth)
qed

lemma map_content_nth:
  "map content xs = map content ys \<Longrightarrow> i < length ys \<Longrightarrow> content (xs ! i) = content (ys ! i)"
  by (metis length_map nth_map)

lemma map_content_last:
  "map content xs = map content ys \<Longrightarrow> ys \<noteq> [] \<Longrightarrow> content (last xs) = content (last ys)"
  by (metis last_map map_is_Nil_conv)

lemma frame_runCallback:
  "keeps (messages c) (messages (snd (runCallback e cb c)))
   \<and> (currentAssistantMessageIndexRef c = Some i
        \<longrightarrow> currentAssistantMessageIndexRef (snd (runCallback e cb c)) = Some i)"
proof (cases cb)
  case (ConversationHandler l)
  then show ?thesis
    using keeps_eventHandler [of c e l] ref_eventHandler [of c i e l] by (simp add: Let_def)
next
  case GenerationHandler
  then show ?thesis using keeps_generationEventHandler [of c e] by simp
qed

lemma frame_forEachCallback:
  "keeps (messages c) (messages (snd (forEachCallback e cbs c)))
   \<and> (currentAssistantMessageIndexRef c = Some i
        \<longrightarrow> currentAssistantMessageIndexRef (snd (forEachCallback e cbs c)) = Some i)"
proof (induction cbs arbitrary: c)
  case Nil
  show ?case by (simp add: keeps_refl)
next
  case (Cons cb cbs)
  let ?c1 = "snd (runCallback e cb c)"
  from frame_runCallback [of c e cb i]
  have k1: "keeps (messages c) (messages ?c1)"
    and r1: "currentAssistantMessageIndexRef c = Some i
        \<longrightarrow> currentAssistantMessageIndexRef ?c1 = Some i" by simp_all
  from Cons.IH [of ?c1]
  have k2: "keeps (messages ?c1) (messages (snd (forEachCallback e cbs ?c1)))"
    and r2: "currentAssistantMessageIndexRef ?c1 = Some i
        \<longrightarrow> currentAssistantMessageIndexRef (snd (forEachCallback e cbs ?c1)) = Some i"
    by simp_all
  from keeps_trans [OF k1 k2] r1 r2 show ?case by (simp add: Let_def)
qed


lemma length_markClosed [simp]: "length (markClosed h srcs) = length srcs"
  by (simp add: markClosed_def)

lemma view_close [simp]: "view (close p) = view p"
  by (simp add: close_def split: option.splits)

lemma callbacks_close [simp]: "callbacks (sseClient (close p)) = callbacks (sseClient p)"
  by (simp add: close_def split: option.splits)

lemma length_sources_close [simp]: "length (eventSources (close p)) = length (eventSources p)"
  by (simp add: close_def split: option.splits)

lemma keeps_notifyCallbacks:
  "keeps (messages (view p)) (messages (view (notifyCallbacks e p)))"
  using frame_forEachCallback [of "view p" e "callbacks (sseClient p)"]
  by (simp add: notifyCallbacks_def Let_def)

lemma keeps_onmessage: "keeps (messages (view p)) (messages (view (onmessage h m p)))"
  by (cases m) (simp_all add: onmessage_def keeps_refl keeps_notifyCallbacks)

lemma view_onerror [simp]: "view (onerror h g p) = view p"
  by (simp add: onerror_def Let_def split: option.splits)

lemma hashes_step:
  "currentAssistantMessageIndexRef c = Some i \<Longrightarrow>
   sentMessageHashes (fst (eventHandler e (l, c))) = sentMessageHashes l \<union> offeredText e"
  by (auto simp: eventHandler_def offeredText_def Let_def split: option.splits)

lemma count_step:
  "finite (sentMessageHashes l) \<Longrightarrow> textEventCount l = card (sentMessageHashes l) \<Longrightarrow>
   finite (sentMessageHashes (fst (eventHandler e (l, c))))
   \<and> textEventCount (fst (eventHandler e (l, c))) = card (sentMessageHashes (fst (eventHandler e (l, c))))"
  by (auto simp: eventHandler_def Let_def split: option.splits)

lemma duplicate_step:
  "currentAssistantMessageIndexRef c = Some i \<Longrightarrow> ev_type e = T_text \<Longrightarrow>
   data_member e ''content'' = Some d \<Longrightarrow> d \<in> sentMessageHashes l \<Longrightarrow>
   eventHandler e (l, c) = (l, c)"
  by (simp add: eventHandler_def Let_def)

lemma hashes_run:
  "currentAssistantMessageIndexRef (snd s) = Some i \<Longrightarrow>
   sentMessageHashes (fst (handleEvents evs s))
     = sentMessageHashes (fst s) \<union> (\<Union>e \<in> set evs. offeredText e)"
proof (induction evs arbitrary: s)
  case Nil
  show ?case by simp
next
  case (Cons e evs)
  obtain l c where s: "s = (l, c)" by (cases s)
  with Cons.prems have r: "currentAssistantMessageIndexRef c = Some i" by simp
  from ref_eventHandler [OF r, of e l]
  have r': "currentAssistantMessageIndexRef (snd (eventHandler e s)) = Some i" by (simp add: s)
  from Cons.IH [OF r'] hashes_step [OF r, of e l] show ?case by (auto simp: s)
qed

lemma count_run:
  "finite (sentMessageHashes (fst s)) \<Longrightarrow> textEventCount (fst s) = card (sentMessageHashes (fst s)) \<Longrightarrow>
   textEventCount (fst (handleEvents evs s)) = card (sentMessageHashes (fst (handleEvents evs s)))"
proof (induction evs arbitrary: s)
  case Nil
  then show ?case by simp
next
  case (Cons e evs)
  obtain l c where s: "s = (l, c)" by (cases s)
  from Cons.prems count_step [of l e c]
  have "finite (sentMessageHashes (fst (eventHandler e s)))"
    and "textEventCount (fst (eventHandler e s)) = card (sentMessageHashes (fst (eventHandler e s)))"
    by (simp_all add: s)
  from Cons.IH [OF this] show ?case by simp
qed


lemma isOpen_view_update [simp]: "isOpen h (p\<lparr>view := v\<rparr>) = isOpen h p"
  by (simp add: isOpen_def)

lemma onlyCurrentOpen_view [simp]: "onlyCurrentOpen (p\<lparr>view := v\<rparr>) = onlyCurrentOpen p"
  by (simp add: onlyCurrentOpen_def)

lemma isOpen_onEvent [simp]: "isOpen h (onEvent cb p) = isOpen h p"
  by (simp add: isOpen_def onEvent_def)

lemma eventSource_onEvent [simp]: "eventSource (sseClient (onEvent cb p)) = eventSource (sseClient p)"
  by (simp add: onEvent_def)

lemma eventSources_onEvent [simp]: "eventSources (onEvent cb p) = eventSources p"
  by (simp add: onEvent_def)

lemma closed_after_close:
  "onlyCurrentOpen p \<Longrightarrow> \<not> isOpen h (close p)"
  by (auto simp: onlyCurrentOpen_def close_def isOpen_def markClosed_def nth_list_update
           split: option.splits)

lemma eventSource_close [simp]: "eventSource (sseClient (close p)) = None"
  by (simp add: close_def split: option.splits)

lemma onlyCurrentOpen_close: "onlyCurrentOpen p \<Longrightarrow> onlyCurrentOpen (close p)"
  by (simp add: onlyCurrentOpen_def closed_after_close [unfolded onlyCurrentOpen_def])

lemma isOpen_connect:
  "isOpen h (connect url p) = (h = length (eventSources p) \<or> isOpen h p)"
  by (auto simp: connect_def isOpen_def nth_append)

lemma eventSource_connect [simp]:
  "eventSource (sseClient (connect url p)) = Some (length (eventSources p))"
  by (simp add: connect_def)

lemma reconnect:
  assumes "onlyCurrentOpen p"
  shows "onlyCurrentOpen (connect url (onEvent cb (close p)))"
    and "isOpen h (connect url (onEvent cb (close p))) = (h = length (eventSources p))"
  using closed_after_close [OF assms]
  by (simp_all add: onlyCurrentOpen_def isOpen_connect)

lemma onlyCurrentOpen_notify [simp]: "onlyCurrentOpen (notifyCallbacks e p) = onlyCurrentOpen p"
  by (simp add: onlyCurrentOpen_def notifyCallbacks_def Let_def isOpen_def)

lemma onlyCurrentOpen_onerror:
  assumes inv: "onlyCurrentOpen p"
  shows "onlyCurrentOpen (onerror h g p)"
proof (cases "isOpen h p \<and> g")
  case False
  then show ?thesis using inv
    by (auto simp: onerror_def Let_def onlyCurrentOpen_def split: option.splits)
next
  case True
  with inv have cur: "eventSource (sseClient p) = Some h" by (simp add: onlyCurrentOpen_def)
  let ?p1 = "p\<lparr>eventSources := markClosed h (eventSources p)\<rparr>"
  have closed: "\<not> isOpen k ?p1" for k
  proof
    assume o: "isOpen k ?p1"
    then have "isOpen k p"
      by (auto simp: isOpen_def markClosed_def nth_list_update split: if_splits)
    with inv cur have "k = h" by (simp add: onlyCurrentOpen_def)
    with o True show False by (simp add: isOpen_def markClosed_def)
  qed
  have "onerror h g p = close ?p1" using True cur closed [of h]
    by (simp add: onerror_def Let_def)
  moreover have "onlyCurrentOpen ?p1" using closed by (simp add: onlyCurrentOpen_def)
  ultimately show ?thesis by (simp add: onlyCurrentOpen_close)
qed

lemma onlyCurrentOpen_perform: "onlyCurrentOpen p \<Longrightarrow> onlyCurrentOpen (perform a p)"
proof (cases a)
  case (SendBegin msg now)
  assume "onlyCurrentOpen p"
  then show ?thesis by (simp add: SendBegin handleSendMessage_begin_def Let_def)
next
  case (SendResume outcome url)
  assume "onlyCurrentOpen p"
  then show ?thesis
    by (cases outcome) (simp_all add: SendResume handleSendMessage_resume_def Let_def reconnect)
next
  case (StartGeneration status now url)
  assume a: "onlyCurrentOpen p"
  let ?p0 = "p\<lparr>view := (view p)\<lparr>isGenerating := True, error := None,
                      messages := messages (view p)
                        @ [\<lparr>role = Assistant, content = Some generationStartContent,
                            timestamp = now, events = Some []\<rparr>]\<rparr>\<rparr>"
  from a have "onlyCurrentOpen ?p0" by simp
  from reconnect(1) [OF this] a show ?thesis
    by (simp add: StartGeneration startCodeGeneration_def Let_def)
next
  case (StreamMessage h m)
  assume "onlyCurrentOpen p"
  then show ?thesis
    by (cases m) (simp_all add: StreamMessage onmessage_def onlyCurrentOpen_close)
next
  case (StreamError h g)
  assume "onlyCurrentOpen p"
  then show ?thesis by (simp add: StreamError onlyCurrentOpen_onerror)
next
  case (Load outcome)
  assume "onlyCurrentOpen p"
  then show ?thesis by (simp add: Load loadConversation_def split: load_outcome.splits)
next
  case Unmount
  assume "onlyCurrentOpen p"
  then show ?thesis by (simp add: Unmount unmount_def Let_def onlyCurrentOpen_close)
qed

lemma onlyCurrentOpen_performAll: "onlyCurrentOpen p \<Longrightarrow> onlyCurrentOpen (performAll as p)"
  by (induction as arbitrary: p) (simp_all add: onlyCurrentOpen_perform)

lemma onlyCurrentOpen_initial: "onlyCurrentOpen initialPage"
  by (simp add: onlyCurrentOpen_def isOpen_def initialPage_def)

lemma eventSources_begin [simp]:
  "eventSources (handleSendMessage_begin msg now p) = eventSources p"
  by (simp add: handleSendMessage_begin_def Let_def)

lemma sseClient_begin [simp]:
  "sseClient (handleSendMessage_begin msg now p) = sseClient p"
  by (simp add: handleSendMessage_begin_def Let_def)

lemma onlyCurrentOpen_begin:
  "onlyCurrentOpen (handleSendMessage_begin msg now p) = onlyCurrentOpen p"
  by (simp add: handleSendMessage_begin_def Let_def)

lemma isOpen_load [simp]: "isOpen h (loadConversation outcome p) = isOpen h p"
  by (simp add: loadConversation_def isOpen_def split: load_outcome.splits)

lemma formatMessage_idem [simp]: "formatMessage (formatMessage m) = formatMessage m"
  by (simp add: formatMessage_def eventsOrEmpty_def)

subsection \<open>The current index stays valid\<close>

text \<open>
  On every page that the operations of the component reach from the initial page, the
  ref is unset or points at an assistant message.
\<close>

lemma findLastAssistant_valid:
  "findLastAssistant prev n = Some i \<Longrightarrow> i < n \<and> role (prev ! i) = Assistant"
  by (induction n) (auto split: if_splits)

lemma refValid_resolveIndex: "refValid c \<Longrightarrow> refValid (resolveIndex c)"
  by (auto simp: refValid_def resolveIndex_def split: option.splits
           dest: findLastAssistant_valid)

lemma refValid_keeps:
  "refValid c \<Longrightarrow> keeps (messages c) (messages c')
   \<Longrightarrow> currentAssistantMessageIndexRef c' = currentAssistantMessageIndexRef c
   \<Longrightarrow> refValid c'"
  by (auto simp: refValid_def keeps_def split: option.splits)

lemma ref_eventHandler_eq:
  "currentAssistantMessageIndexRef (snd (eventHandler e (l, c)))
     = currentAssistantMessageIndexRef (resolveIndex c)"
  by (auto simp: eventHandler_def Let_def split: option.splits)

lemma keeps_resolve_eventHandler:
  "keeps (messages (resolveIndex c)) (messages (snd (eventHandler e (l, c))))"
  using keeps_eventHandler [of c e l] by simp

lemma refValid_eventHandler: "refValid c \<Longrightarrow> refValid (snd (eventHandler e (l, c)))"
  using refValid_keeps [OF refValid_resolveIndex keeps_resolve_eventHandler ref_eventHandler_eq]
  by blast

lemma refValid_generationEventHandler: "refValid c \<Longrightarrow> refValid (generationEventHandler e c)"
  using refValid_keeps [OF _ keeps_generationEventHandler ref_generationEventHandler] by blast

lemma refValid_runCallback: "refValid c \<Longrightarrow> refValid (snd (runCallback e cb c))"
  by (cases cb) (simp_all add: Let_def refValid_eventHandler refValid_generationEventHandler)

lemma refValid_forEachCallback: "refValid c \<Longrightarrow> refValid (snd (forEachCallback e cbs c))"
  by (induction cbs arbitrary: c) (simp_all add: Let_def refValid_runCallback)

lemma refValid_perform: "refValid (view p) \<Longrightarrow> refValid (view (perform a p))"
proof (cases a)
  case (SendBegin msg now)
  then show ?thesis
    by (simp add: handleSendMessage_begin_def Let_def refValid_def nth_append)
next
  case (SendResume outcome url)
  assume "refValid (view p)"
  then show ?thesis
    by (cases outcome)
       (auto simp: SendResume handleSendMessage_resume_def Let_def connect_def onEvent_def
          refValid_def split: option.splits)
next
  case (StartGeneration status now url)
  assume "refValid (view p)"
  then show ?thesis
    by (auto simp: StartGeneration startCodeGeneration_def Let_def connect_def onEvent_def
          refValid_def nth_append split: option.splits)
next
  case (StreamMessage h m)
  assume "refValid (view p)"
  then show ?thesis
    by (cases m)
       (simp_all add: StreamMessage onmessage_def notifyCallbacks_def Let_def
          refValid_forEachCallback)
next
  case (StreamError h g)
  assume "refValid (view p)"
  then show ?thesis by (simp add: StreamError)
next
  case (Load outcome)
  assume "refValid (view p)"
  then show ?thesis
    by (auto simp: Load loadConversation_def refValid_def split: load_outcome.splits option.splits)
next
  case Unmount
  then show ?thesis by (simp add: unmount_def Let_def refValid_def)
qed

lemma refValid_performAll: "refValid (view p) \<Longrightarrow> refValid (view (performAll as p))"
  by (induction as arbitrary: p) (simp_all add: refValid_perform)

lemma refValid_reachable: "refValid (view (performAll as initialPage))"
  by (rule refValid_performAll) (simp add: refValid_def initialPage_def initialComponent_def)

subsection \<open>The frame of an event\<close>

lemma eventsOrEmpty_Some: "events m = Some xs \<Longrightarrow> eventsOrEmpty m = xs"
  by (simp add: eventsOrEmpty_def)

lemma written_refl: "written e m m"
  by (simp add: written_def)

lemma written_trans:
  assumes "written e a b" and "written e b c"
  shows "written e a c"
proof (cases "b = a \<or> c = b")
  case True
  with assms show ?thesis by auto
next
  case False
  with assms have ab: "role a = Assistant" "role b = Assistant" "role c = Assistant"
    and cab: "(content b = content a \<and> timestamp b = timestamp a)
            \<or> (ev_type e = T_text \<and> content b = data_member e ''content''
                \<and> (timestamp b = timestamp a \<or> timestamp b = ev_timestamp e))"
    and cbc: "(content c = content b \<and> timestamp c = timestamp b)
            \<or> (ev_type e = T_text \<and> content c = data_member e ''content''
                \<and> (timestamp c = timestamp b \<or> timestamp c = ev_timestamp e))"
    and eab: "events b = events a
            \<or> ((ev_type e = T_thought \<or> ev_type e = T_tool_call
                  \<or> ev_type e = T_tool_call_result)
                \<and> events b
                    = Some (eventsOrEmpty a
                        @ replicate (length (eventsOrEmpty b) - length (eventsOrEmpty a)) e))"
    and ebc: "events c = events b
            \<or> ((ev_type e = T_thought \<or> ev_type e = T_tool_call
                  \<or> ev_type e = T_tool_call_result)
                \<and> events c
                    = Some (eventsOrEmpty b
                        @ replicate (length (eventsOrEmpty c) - length (eventsOrEmpty b)) e))"
    by (auto simp: written_def)
  from cab cbc have ct: "(content c = content a \<and> timestamp c = timestamp a)
            \<or> (ev_type e = T_text \<and> content c = data_member e ''content''
                \<and> (timestamp c = timestamp a \<or> timestamp c = ev_timestamp e))"
    by auto
  have ev: "events c = events a
            \<or> ((ev_type e = T_thought \<or> ev_type e = T_tool_call
                  \<or> ev_type e = T_tool_call_result)
                \<and> events c
                    = Some (eventsOrEmpty a
                        @ replicate (length (eventsOrEmpty c) - length (eventsOrEmpty a)) e))"
  proof (cases "events b = events a")
    case True
    then have "eventsOrEmpty b = eventsOrEmpty a" by (simp add: eventsOrEmpty_def)
    with ebc True show ?thesis by auto
  next
    case ba: False
    with eab have ty: "ev_type e = T_thought \<or> ev_type e = T_tool_call
                  \<or> ev_type e = T_tool_call_result"
      and b: "events b = Some (eventsOrEmpty a
                        @ replicate (length (eventsOrEmpty b) - length (eventsOrEmpty a)) e)"
      by auto
    let ?k1 = "length (eventsOrEmpty b) - length (eventsOrEmpty a)"
    from b have ob: "eventsOrEmpty b = eventsOrEmpty a @ replicate ?k1 e"
      by (rule eventsOrEmpty_Some)
    show ?thesis
    proof (cases "events c = events b")
      case True
      then have "eventsOrEmpty c = eventsOrEmpty b" by (simp add: eventsOrEmpty_def)
      with True b ty show ?thesis by simp
    next
      case False
      with ebc have c: "events c = Some (eventsOrEmpty b
                        @ replicate (length (eventsOrEmpty c) - length (eventsOrEmpty b)) e)"
        by auto
      let ?k2 = "length (eventsOrEmpty c) - length (eventsOrEmpty b)"
      from c have oc: "eventsOrEmpty c = eventsOrEmpty b @ replicate ?k2 e"
        by (rule eventsOrEmpty_Some)
      have "eventsOrEmpty c = eventsOrEmpty a @ replicate (?k1 + ?k2) e"
        by (subst oc, subst ob) (simp add: replicate_add)
      moreover from this have "length (eventsOrEmpty c) - length (eventsOrEmpty a) = ?k1 + ?k2"
        by (metis add_diff_cancel_left' length_append length_replicate)
      ultimately have "events c = Some (eventsOrEmpty a
                        @ replicate (length (eventsOrEmpty c) - length (eventsOrEmpty a)) e)"
        using c oc by simp
      with ty show ?thesis by simp
    qed
  qed
  from ab ct ev show ?thesis by (simp add: written_def)
qed

lemma framed_refl: "framed e xs xs"
  by (simp add: framed_def written_refl)

lemma framed_trans: "framed e xs ys \<Longrightarrow> framed e ys zs \<Longrightarrow> framed e xs zs"
  unfolding framed_def by (metis written_trans)

lemma framed_update:
  "i < length xs \<Longrightarrow> written e (xs ! i) m \<Longrightarrow> framed e xs (xs[i := m])"
  by (auto simp: framed_def nth_list_update written_refl)

lemma framed_setTextContent:
  "ev_type e = T_text \<Longrightarrow> data_member e ''content'' = Some d \<Longrightarrow>
   framed e prev (setTextContent i d e prev)"
  by (auto simp: setTextContent_conv framed_refl written_def intro!: framed_update)

lemma framed_addEventToMessage:
  "ev_type e = T_thought \<or> ev_type e = T_tool_call \<or> ev_type e = T_tool_call_result \<Longrightarrow>
   framed e prev (addEventToMessage i e prev)"
  by (auto simp: addEventToMessage_conv framed_refl written_def eventsOrEmpty_def
           intro!: framed_update)

lemma framed_setLastContent:
  "ev_type e = T_text \<Longrightarrow> framed e prev (setLastContent (data_member e ''content'') prev)"
  by (auto simp: setLastContent_conv framed_refl written_def intro!: framed_update)

lemma framed_addEventToLast:
  "ev_type e = T_thought \<or> ev_type e = T_tool_call \<or> ev_type e = T_tool_call_result \<Longrightarrow>
   framed e prev (addEventToLast e prev)"
  by (auto simp: addEventToLast_conv framed_refl written_def eventsOrEmpty_def
           intro!: framed_update)

lemma framed_eventHandler: "framed e (messages c) (messages (snd (eventHandler e (l, c))))"
  by (auto simp: eventHandler_def Let_def framed_refl framed_setTextContent
        framed_addEventToMessage split: option.splits)

lemma framed_generationEventHandler:
  "framed e (messages c) (messages (generationEventHandler e c))"
  by (auto simp: generationEventHandler_def framed_refl framed_setLastContent
        framed_addEventToLast)

lemma changedOnlyAt_refl: "changedOnlyAt c c"
  by (simp add: changedOnlyAt_def)

lemma changedOnlyAt_trans:
  assumes "changedOnlyAt c c1" and "changedOnlyAt c1 c2"
    and "length (messages c1) = length (messages c)"
    and "\<And>i. currentAssistantMessageIndexRef c1 = Some i
            \<Longrightarrow> currentAssistantMessageIndexRef c2 = Some i"
  shows "changedOnlyAt c c2"
  using assms unfolding changedOnlyAt_def by metis

lemma changedOnlyAt_eventHandler: "changedOnlyAt c (snd (eventHandler e (l, c)))"
  by (auto simp: changedOnlyAt_def eventHandler_def Let_def setTextContent_conv
        addEventToMessage_conv nth_list_update split: option.splits if_splits)

lemma changedOnlyAt_generationEventHandler: "changedOnlyAt c (generationEventHandler e c)"
  by (auto simp: changedOnlyAt_def generationEventHandler_def setLastContent_conv
        addEventToLast_conv nth_list_update split: if_splits)

lemma place_runCallback:
  "framed e (messages c) (messages (snd (runCallback e cb c)))
   \<and> changedOnlyAt c (snd (runCallback e cb c))"
  by (cases cb)
     (simp_all add: Let_def framed_eventHandler framed_generationEventHandler
        changedOnlyAt_eventHandler changedOnlyAt_generationEventHandler)

lemma place_forEachCallback:
  "framed e (messages c) (messages (snd (forEachCallback e cbs c)))
   \<and> changedOnlyAt c (snd (forEachCallback e cbs c))"
proof (induction cbs arbitrary: c)
  case Nil
  show ?case by (simp add: framed_refl changedOnlyAt_refl)
next
  case (Cons cb cbs)
  let ?c1 = "snd (runCallback e cb c)"
  let ?c2 = "snd (forEachCallback e cbs ?c1)"
  from place_runCallback [of e c cb]
  have f1: "framed e (messages c) (messages ?c1)" and o1: "changedOnlyAt c ?c1" by simp_all
  from Cons.IH [of ?c1]
  have f2: "framed e (messages ?c1) (messages ?c2)" and o2: "changedOnlyAt ?c1 ?c2" by simp_all
  from f1 have len: "length (messages ?c1) = length (messages c)" by (simp add: framed_def)
  have r: "currentAssistantMessageIndexRef ?c1 = Some i
            \<Longrightarrow> currentAssistantMessageIndexRef ?c2 = Some i" for i
    using frame_forEachCallback [of ?c1 e cbs i] by simp
  from framed_trans [OF f1 f2] changedOnlyAt_trans [OF o1 o2 len r]
  show ?case by (simp add: Let_def)
qed

lemma place_notifyCallbacks:
  "framed e (messages (view p)) (messages (view (notifyCallbacks e p)))
   \<and> changedOnlyAt (view p) (view (notifyCallbacks e p))"
  using place_forEachCallback [of e "view p" "callbacks (sseClient p)"]
  by (simp add: notifyCallbacks_def Let_def)

lemma place_onmessage:
  "framed e (messages (view p)) (messages (view (onmessage h (EventJson e) p)))
   \<and> changedOnlyAt (view p) (view (onmessage h (EventJson e) p))"
  using place_notifyCallbacks [of e p]
  by (simp add: onmessage_def framed_refl changedOnlyAt_refl)

text \<open>The frame excludes a reordering of the list and a change of a user message.\<close>

lemma framed_excludes_reordering:
  "\<not> framed (textEvent ''z'') [storedUser, storedAssistant] [storedAssistant, storedUser]"
  by (simp add: framed_def written_def storedUser_def storedAssistant_def textEvent_def
        All_less_Suc data_member_def eval_nat_numeral)

lemma framed_excludes_user_overwrite:
  "\<not> framed (textEvent ''z'') [storedUser, storedAssistant]
         [storedUser\<lparr>content := Some ''z''\<rparr>, storedAssistant]"
  by (simp add: framed_def written_def storedUser_def storedAssistant_def textEvent_def
        All_less_Suc data_member_def eval_nat_numeral)

subsection \<open>Accepted and repeated texts\<close>

lemma accept_step:
  assumes "currentAssistantMessageIndexRef c = Some i" and "i < length (messages c)"
    and "role (messages c ! i) = Assistant"
    and "ev_type e = T_text" and "data_member e ''content'' = Some d" and "d \<noteq> []"
    and "d \<notin> sentMessageHashes l"
  shows "content (messages (snd (eventHandler e (l, c))) ! i) = Some d
       \<and> sentMessageHashes (fst (eventHandler e (l, c))) = insert d (sentMessageHashes l)
       \<and> textEventCount (fst (eventHandler e (l, c))) = textEventCount l + 1"
  using assms by (simp add: eventHandler_def Let_def setTextContent_conv)

lemma unchanged_hashes_step:
  assumes "sentMessageHashes (fst (eventHandler e (l, c))) = sentMessageHashes l"
  shows "map content (messages (snd (eventHandler e (l, c)))) = map content (messages c)"
proof -
  have "textEventCount (fst (eventHandler e (l, c))) = textEventCount l"
    using assms
    by (auto simp: eventHandler_def Let_def split: option.splits if_splits)
  from rejected_step [of e "(l, c)"] this show ?thesis by simp
qed

lemma single_handler_duplicate:
  assumes "callbacks (sseClient p) = [ConversationHandler l]"
    and "currentAssistantMessageIndexRef (view p) = Some j"
    and "ev_type e = T_text" and "data_member e ''content'' = Some d"
    and "d \<in> sentMessageHashes l"
  shows "onmessage h (EventJson e) p = p"
proof -
  have "eventHandler e (l, view p) = (l, view p)"
    by (rule duplicate_step [OF assms(2) assms(3) assms(4) assms(5)])
  then have "notifyCallbacks e p = p"
    using assms(1) by (simp add: notifyCallbacks_def Let_def)
  then show ?thesis by (simp add: onmessage_def)
qed

subsection \<open>Stage executions\<close>

lemma transitionRule_finalized: "finalized s \<Longrightarrow> transitionRule s = Confirm"
  by (auto simp: finalized_def transitionRule_def split: option.splits)

lemma transitionRule_not_terminal:
  "transitionRule s \<noteq> Failed \<and> transitionRule s \<noteq> Done"
  by (simp add: transitionRule_def split: option.splits)

lemma executeStage_Converse_finalized:
  "stage t = Converse \<Longrightarrow> finalized (snapshot t) \<Longrightarrow>
   executeStage env t = t\<lparr>executions := executions t + 1, stage := Confirm\<rparr>"
  by (simp add: executeStage_def Let_def transitionRule_finalized)

lemma executeStage_Confirm:
  "stage t = Confirm \<Longrightarrow>
   executeStage env t =
     t\<lparr>executions := executions t + 1,
       units := units t
         @ [\<lparr>kind = AssistantText, payload = confirmationText env (snapshot t),
             owningTurn = turnId t, producedBy = Confirm, executionNo = executions t + 1\<rparr>],
       requirementsConfirmed := True, stage := Done\<rparr>"
  by (simp add: executeStage_def Let_def emit_def)

lemma runTurn_terminal: "terminal t \<Longrightarrow> runTurn env n t = t"
  by (cases n) simp_all

lemma executeStage_fails:
  assumes "callFails env t f"
  shows "executeStage env t =
     t\<lparr>executions := executions t + 1,
       serviceCalls := serviceCalls t @ [stage t],
       units := units t
         @ [\<lparr>kind = ErrorUnit, payload = cause f, owningTurn = turnId t,
             producedBy = stage t, executionNo = executions t + 1\<rparr>],
       stage := Failed\<rparr>"
  using assms
  by (cases "stage t")
     (auto simp: callFails_def executeStage_def Let_def failTurn_def emit_def
        split: option.splits)

lemma callFails_not_terminal: "callFails env t f \<Longrightarrow> \<not> terminal t"
  by (cases "stage t") (simp_all add: callFails_def terminal_def)

lemma oneErrorIfFailed_executeStage:
  "oneErrorIfFailed t \<Longrightarrow> oneErrorIfFailed (executeStage env t)"
  using transitionRule_not_terminal [of "snapshot t"]
  by (cases "stage t")
     (auto simp: oneErrorIfFailed_def errorUnits_def executeStage_def Let_def failTurn_def
        emit_def split: sum.splits option.splits if_splits)

lemma oneErrorIfFailed_runTurn:
  "oneErrorIfFailed t \<Longrightarrow> oneErrorIfFailed (runTurn env n t)"
  by (induction n arbitrary: t) (simp_all add: oneErrorIfFailed_executeStage)

subsection \<open>The numbering of the Emitter\<close>









section \<open>The claims\<close>

text \<open>
  Claim C1, as stated, fails on the component. Only text events are checked against the
  set of seen contents: two identical \<^verbatim>\<open>thought\<close> events of one stream are both
  appended to the events of the current assistant message. An accepted text does not
  stay: after the texts \<open>a\<close> and \<open>b\<close> of one stream no message holds \<open>a\<close>. The
  set belongs to one stream: the text \<open>a\<close>, accepted in one turn, is accepted again in
  the next and is then held by two messages. And the check is that of one handler: a
  handler of \<^verbatim>\<open>startCodeGeneration\<close> that is still registered writes the text
  \<open>a\<close> a second time, after \<open>b\<close>, although the handler of \<^verbatim>\<open>handleSendMessage\<close>
  rejects it.
\<close>

theorem units_not_delivered_exactly_once:
  "events (messages (view (onmessage 0 (EventJson (thoughtEvent ''x''))
       (onmessage 0 (EventJson (thoughtEvent ''x''))
         (handleSendMessage ''q'' ''n'' Sent ''u'' initialPage)))) ! 1)
     = Some [thoughtEvent ''x'', thoughtEvent ''x'']
   \<and> map content (messages (view (onmessage 0 (EventJson (textEvent ''b''))
       (onmessage 0 (EventJson (textEvent ''a''))
         (handleSendMessage ''q'' ''n'' Sent ''u'' initialPage)))))
     = [Some ''q'', Some ''b'']
   \<and> map content (messages (view (onmessage 1 (EventJson (textEvent ''a''))
       (handleSendMessage ''q2'' ''n2'' Sent ''u''
         (onmessage 0 (EventJson (textEvent ''a''))
           (handleSendMessage ''q1'' ''n1'' Sent ''u'' initialPage))))))
     = [Some ''q1'', Some ''a'', Some ''q2'', Some ''a'']
   \<and> callbacks (sseClient (onmessage 1 (EventJson (textEvent ''a''))
       (onmessage 1 (EventJson (textEvent ''b''))
         (onmessage 1 (EventJson (textEvent ''a''))
           (handleSendMessage ''q'' ''n'' Sent ''u''
             (onmessage 0 (EventJson \<lparr>ev_type = T_done, ev_data = [], ev_timestamp = ''t''\<rparr>)
               (startCodeGeneration S_requirements_confirmed ''n0'' ''g'' initialPage)))))))
     = [GenerationHandler,
        ConversationHandler \<lparr>sentMessageHashes = {''b'', ''a''}, textEventCount = 2\<rparr>]
   \<and> map content (messages (view (onmessage 1 (EventJson (textEvent ''a''))
       (onmessage 1 (EventJson (textEvent ''b''))
         (onmessage 1 (EventJson (textEvent ''a''))
           (handleSendMessage ''q'' ''n'' Sent ''u''
             (onmessage 0 (EventJson \<lparr>ev_type = T_done, ev_data = [], ev_timestamp = ''t''\<rparr>)
               (startCodeGeneration S_requirements_confirmed ''n0'' ''g'' initialPage))))))))
     = [Some generationStartContent, Some ''q'', Some ''a'']"
  by (simp add: thoughtEvent_def textEvent_def handleSendMessage_def handleSendMessage_begin_def
        handleSendMessage_resume_def initialPage_def initialComponent_def close_def onEvent_def
        connect_def onmessage_def isOpen_def notifyCallbacks_def eventHandler_def markClosed_def
        resolveIndex_def data_member_def setTextContent_def addEventToMessage_def
        eventsOrEmpty_def Let_def startCodeGeneration_def canStartGeneration_def
        isCodeGenerating_def generationEventHandler_def setLastContent_def)

text \<open>
  Claim C1, amended. Within one stream of \<^verbatim>\<open>handleSendMessage\<close> (one handler, whose
  current assistant message is in the list) text events, and only they, are delivered
  once for each distinct content. After any events \<open>evs\<close> the set
  \<open>sentMessageHashes\<close> holds what it held before and every non-empty text content that
  was offered; when the counter started equal to the size of the set (as in a new
  handler: empty set, zero), \<open>textEventCount\<close> is the size of the set, so each distinct
  content was accepted exactly once. A text event with a non-empty content that is not
  in the set is delivered: its content becomes the content of the current assistant
  message, it joins the set and the counter goes up by one. A text event whose content
  is in the set changes nothing, neither the locals nor the component; an event that
  leaves the set as it is leaves the content of every message as it is; and when this
  handler is the only callback registered with the client, the page that receives a
  repeated text is the page before.
\<close>

theorem text_delivered_once_per_stream:
  "currentAssistantMessageIndexRef c = Some i \<and> i < length (messages c)
     \<and> role (messages c ! i) = Assistant \<longrightarrow>
     sentMessageHashes (fst (handleEvents evs (l, c)))
       = sentMessageHashes l \<union> (\<Union>x \<in> set evs. offeredText x)
     \<and> (finite (sentMessageHashes l) \<and> textEventCount l = card (sentMessageHashes l)
          \<longrightarrow> textEventCount (fst (handleEvents evs (l, c)))
                = card (sentMessageHashes (fst (handleEvents evs (l, c)))))
     \<and> (ev_type e = T_text \<and> data_member e ''content'' = Some d \<and> d \<noteq> []
          \<and> d \<notin> sentMessageHashes (fst (handleEvents evs (l, c)))
          \<longrightarrow> content (messages (snd (eventHandler e (handleEvents evs (l, c)))) ! i) = Some d
              \<and> sentMessageHashes (fst (eventHandler e (handleEvents evs (l, c))))
                  = insert d (sentMessageHashes (fst (handleEvents evs (l, c))))
              \<and> textEventCount (fst (eventHandler e (handleEvents evs (l, c))))
                  = textEventCount (fst (handleEvents evs (l, c))) + 1)
     \<and> (ev_type e = T_text \<and> data_member e ''content'' = Some d
          \<and> d \<in> sentMessageHashes (fst (handleEvents evs (l, c)))
          \<longrightarrow> eventHandler e (handleEvents evs (l, c)) = handleEvents evs (l, c))
     \<and> (sentMessageHashes (fst (eventHandler e (handleEvents evs (l, c))))
            = sentMessageHashes (fst (handleEvents evs (l, c)))
          \<longrightarrow> map content (messages (snd (eventHandler e (handleEvents evs (l, c)))))
                = map content (messages (snd (handleEvents evs (l, c)))))
     \<and> (callbacks (sseClient p) = [ConversationHandler (fst (handleEvents evs (l, c)))]
          \<and> view p = snd (handleEvents evs (l, c))
          \<and> ev_type e = T_text \<and> data_member e ''content'' = Some d
          \<and> d \<in> sentMessageHashes (fst (handleEvents evs (l, c)))
          \<longrightarrow> onmessage h (EventJson e) p = p)"
proof (rule impI)
  assume hyp: "currentAssistantMessageIndexRef c = Some i \<and> i < length (messages c)
     \<and> role (messages c ! i) = Assistant"
  then have r0: "currentAssistantMessageIndexRef (snd (l, c)) = Some i" by simp
  obtain l' c' where s': "handleEvents evs (l, c) = (l', c')" by (cases "handleEvents evs (l, c)")
  from frame_run [OF r0, of evs]
  have r': "currentAssistantMessageIndexRef c' = Some i"
    and k: "keeps (messages c) (messages c')" by (simp_all add: s')
  from k hyp have i': "i < length (messages c')" and a': "role (messages c' ! i) = Assistant"
    by (simp_all add: keeps_def)
  have c1: "sentMessageHashes (fst (handleEvents evs (l, c)))
       = sentMessageHashes l \<union> (\<Union>x \<in> set evs. offeredText x)"
    using hashes_run [OF r0, of evs] by simp
  have c2: "finite (sentMessageHashes l) \<and> textEventCount l = card (sentMessageHashes l)
          \<longrightarrow> textEventCount (fst (handleEvents evs (l, c)))
                = card (sentMessageHashes (fst (handleEvents evs (l, c))))"
    using count_run [of "(l, c)" evs] by simp
  have c3: "ev_type e = T_text \<and> data_member e ''content'' = Some d \<and> d \<noteq> []
          \<and> d \<notin> sentMessageHashes l'
          \<longrightarrow> content (messages (snd (eventHandler e (l', c'))) ! i) = Some d
              \<and> sentMessageHashes (fst (eventHandler e (l', c'))) = insert d (sentMessageHashes l')
              \<and> textEventCount (fst (eventHandler e (l', c'))) = textEventCount l' + 1"
    using accept_step [OF r' i' a', of e d l'] by blast
  have c4: "ev_type e = T_text \<and> data_member e ''content'' = Some d \<and> d \<in> sentMessageHashes l'
          \<longrightarrow> eventHandler e (l', c') = (l', c')"
    using duplicate_step [OF r', of e d l'] by blast
  have c5: "sentMessageHashes (fst (eventHandler e (l', c'))) = sentMessageHashes l'
          \<longrightarrow> map content (messages (snd (eventHandler e (l', c')))) = map content (messages c')"
    using unchanged_hashes_step [of e l' c'] by blast
  have c6: "callbacks (sseClient p) = [ConversationHandler l'] \<and> view p = c'
          \<and> ev_type e = T_text \<and> data_member e ''content'' = Some d \<and> d \<in> sentMessageHashes l'
          \<longrightarrow> onmessage h (EventJson e) p = p"
    using single_handler_duplicate [of p l' i e d h] r' by blast
  from c1 c2 c3 c4 c5 c6
  show "sentMessageHashes (fst (handleEvents evs (l, c)))
       = sentMessageHashes l \<union> (\<Union>x \<in> set evs. offeredText x)
     \<and> (finite (sentMessageHashes l) \<and> textEventCount l = card (sentMessageHashes l)
          \<longrightarrow> textEventCount (fst (handleEvents evs (l, c)))
                = card (sentMessageHashes (fst (handleEvents evs (l, c)))))
     \<and> (ev_type e = T_text \<and> data_member e ''content'' = Some d \<and> d \<noteq> []
          \<and> d \<notin> sentMessageHashes (fst (handleEvents evs (l, c)))
          \<longrightarrow> content (messages (snd (eventHandler e (handleEvents evs (l, c)))) ! i) = Some d
              \<and> sentMessageHashes (fst (eventHandler e (handleEvents evs (l, c))))
                  = insert d (sentMessageHashes (fst (handleEvents evs (l, c))))
              \<and> textEventCount (fst (eventHandler e (handleEvents evs (l, c))))
                  = textEventCount (fst (handleEvents evs (l, c))) + 1)
     \<and> (ev_type e = T_text \<and> data_member e ''content'' = Some d
          \<and> d \<in> sentMessageHashes (fst (handleEvents evs (l, c)))
          \<longrightarrow> eventHandler e (handleEvents evs (l, c)) = handleEvents evs (l, c))
     \<and> (sentMessageHashes (fst (eventHandler e (handleEvents evs (l, c))))
            = sentMessageHashes (fst (handleEvents evs (l, c)))
          \<longrightarrow> map content (messages (snd (eventHandler e (handleEvents evs (l, c)))))
                = map content (messages (snd (handleEvents evs (l, c)))))
     \<and> (callbacks (sseClient p) = [ConversationHandler (fst (handleEvents evs (l, c)))]
          \<and> view p = snd (handleEvents evs (l, c))
          \<and> ev_type e = T_text \<and> data_member e ''content'' = Some d
          \<and> d \<in> sentMessageHashes (fst (handleEvents evs (l, c)))
          \<longrightarrow> onmessage h (EventJson e) p = p)"
    unfolding s' fst_conv snd_conv by blast
qed

theorem text_delivered_once_per_stream_witness:
  "currentAssistantMessageIndexRef (view (handleSendMessage ''q'' ''n'' Sent ''u'' initialPage))
     = Some 1
   \<and> (1::nat) < length (messages (view (handleSendMessage ''q'' ''n'' Sent ''u'' initialPage)))
   \<and> role (messages (view (handleSendMessage ''q'' ''n'' Sent ''u'' initialPage)) ! 1) = Assistant
   \<and> handleEvents [textEvent ''a'', textEvent ''b'', textEvent ''a'']
        (\<lparr>sentMessageHashes = {}, textEventCount = 0\<rparr>,
         view (handleSendMessage ''q'' ''n'' Sent ''u'' initialPage))
      = (\<lparr>sentMessageHashes = {''b'', ''a''}, textEventCount = 2\<rparr>,
         \<lparr>messages =
            [\<lparr>role = User, content = Some ''q'', timestamp = ''n'', events = None\<rparr>,
             \<lparr>role = Assistant, content = Some ''b'', timestamp = ''t'', events = Some []\<rparr>],
          loading = False, error = None, isGenerating = False,
          currentAssistantMessageIndexRef = Some 1\<rparr>)
   \<and> content (messages (snd (eventHandler (textEvent ''c'')
        (handleEvents [textEvent ''a'', textEvent ''b'', textEvent ''a'']
          (\<lparr>sentMessageHashes = {}, textEventCount = 0\<rparr>,
           view (handleSendMessage ''q'' ''n'' Sent ''u'' initialPage))))) ! 1) = Some ''c''
   \<and> eventHandler (textEvent ''b'')
        (handleEvents [textEvent ''a'', textEvent ''b'', textEvent ''a'']
          (\<lparr>sentMessageHashes = {}, textEventCount = 0\<rparr>,
           view (handleSendMessage ''q'' ''n'' Sent ''u'' initialPage)))
      = handleEvents [textEvent ''a'', textEvent ''b'', textEvent ''a'']
          (\<lparr>sentMessageHashes = {}, textEventCount = 0\<rparr>,
           view (handleSendMessage ''q'' ''n'' Sent ''u'' initialPage))
   \<and> onmessage 0 (EventJson (textEvent ''b''))
        (onmessage 0 (EventJson (textEvent ''a''))
          (onmessage 0 (EventJson (textEvent ''b''))
            (onmessage 0 (EventJson (textEvent ''a''))
              (handleSendMessage ''q'' ''n'' Sent ''u'' initialPage))))
      = onmessage 0 (EventJson (textEvent ''a''))
          (onmessage 0 (EventJson (textEvent ''b''))
            (onmessage 0 (EventJson (textEvent ''a''))
              (handleSendMessage ''q'' ''n'' Sent ''u'' initialPage)))"
  using text_delivered_once_per_stream
      [of "view (handleSendMessage ''q'' ''n'' Sent ''u'' initialPage)" 1
          "[textEvent ''a'', textEvent ''b'', textEvent ''a'']"
          "\<lparr>sentMessageHashes = {}, textEventCount = 0\<rparr>" "textEvent ''c''" "''c''"
          "onmessage 0 (EventJson (textEvent ''a''))
            (onmessage 0 (EventJson (textEvent ''b''))
              (onmessage 0 (EventJson (textEvent ''a''))
                (handleSendMessage ''q'' ''n'' Sent ''u'' initialPage)))" 0]
    text_delivered_once_per_stream
      [of "view (handleSendMessage ''q'' ''n'' Sent ''u'' initialPage)" 1
          "[textEvent ''a'', textEvent ''b'', textEvent ''a'']"
          "\<lparr>sentMessageHashes = {}, textEventCount = 0\<rparr>" "textEvent ''b''" "''b''"
          "onmessage 0 (EventJson (textEvent ''a''))
            (onmessage 0 (EventJson (textEvent ''b''))
              (onmessage 0 (EventJson (textEvent ''a''))
                (handleSendMessage ''q'' ''n'' Sent ''u'' initialPage)))" 0]
  by (simp add: textEvent_def handleSendMessage_def handleSendMessage_begin_def
        handleSendMessage_resume_def initialPage_def initialComponent_def close_def onEvent_def
        connect_def onmessage_def isOpen_def notifyCallbacks_def eventHandler_def
        resolveIndex_def data_member_def setTextContent_def offeredText_def Let_def)

text \<open>
  Claim C2. In the state machine modelled from the spec: once the snapshot is finalized
  (requirements present, no clarifying question left), an execution of Converse calls no
  collaborator and produces no unit; it only moves on to the stage the transition rule
  gives, which is Confirm. The rest of the turn then makes no call at all, ends in
  \<open>Done\<close> after the two executions Converse and Confirm, and adds exactly one unit to
  those the turn had: the text of Confirm.
\<close>

theorem converse_makes_no_call_once_finalized:
  "stage t = Converse \<and> finalized (snapshot t) \<longrightarrow>
     executeStage env t = t\<lparr>executions := executions t + 1, stage := Confirm\<rparr>
     \<and> serviceCalls (executeStage env t) = serviceCalls t
     \<and> units (executeStage env t) = units t
     \<and> stage (runTurn env (Suc (Suc n)) t) = Done
     \<and> serviceCalls (runTurn env (Suc (Suc n)) t) = serviceCalls t
     \<and> units (runTurn env (Suc (Suc n)) t)
         = units t
           @ [\<lparr>kind = AssistantText, payload = confirmationText env (snapshot t),
               owningTurn = turnId t, producedBy = Confirm, executionNo = executions t + 2\<rparr>]"
proof (rule impI)
  assume h: "stage t = Converse \<and> finalized (snapshot t)"
  then have st: "stage t = Converse" and fin: "finalized (snapshot t)" by simp_all
  let ?t1 = "t\<lparr>executions := executions t + 1, stage := Confirm\<rparr>"
  have e1: "executeStage env t = ?t1" by (rule executeStage_Converse_finalized [OF st fin])
  have c1: "stage ?t1 = Confirm" by simp
  let ?t2 = "executeStage env ?t1"
  have e2: "?t2 = ?t1\<lparr>executions := executions ?t1 + 1,
       units := units ?t1
         @ [\<lparr>kind = AssistantText, payload = confirmationText env (snapshot ?t1),
             owningTurn = turnId ?t1, producedBy = Confirm, executionNo = executions ?t1 + 1\<rparr>],
       requirementsConfirmed := True, stage := Done\<rparr>"
    by (rule executeStage_Confirm [OF c1])
  have term2: "terminal ?t2" unfolding e2 terminal_def by simp
  have nt: "\<not> terminal t" using st by (simp add: terminal_def)
  have nt1: "\<not> terminal ?t1" by (simp add: terminal_def)
  have r: "runTurn env (Suc (Suc n)) t = ?t2"
  proof -
    have "runTurn env (Suc (Suc n)) t = runTurn env (Suc n) (executeStage env t)"
      using nt by simp
    also have "\<dots> = runTurn env (Suc n) ?t1" unfolding e1 ..
    also have "\<dots> = runTurn env n ?t2" using nt1 by simp
    also have "\<dots> = ?t2" by (rule runTurn_terminal [OF term2])
    finally show ?thesis .
  qed
  show "executeStage env t = ?t1
     \<and> serviceCalls (executeStage env t) = serviceCalls t
     \<and> units (executeStage env t) = units t
     \<and> stage (runTurn env (Suc (Suc n)) t) = Done
     \<and> serviceCalls (runTurn env (Suc (Suc n)) t) = serviceCalls t
     \<and> units (runTurn env (Suc (Suc n)) t)
         = units t
           @ [\<lparr>kind = AssistantText, payload = confirmationText env (snapshot t),
               owningTurn = turnId t, producedBy = Confirm, executionNo = executions t + 2\<rparr>]"
    unfolding r unfolding e2 unfolding e1 by simp
qed

theorem converse_makes_no_call_once_finalized_witness:
  "stage finalizedTurn = Converse \<and> finalized (snapshot finalizedTurn)
   \<and> stage (runTurn failingExtraction 2 finalizedTurn) = Done
   \<and> serviceCalls (runTurn failingExtraction 2 finalizedTurn) = []
   \<and> units (runTurn failingExtraction 2 finalizedTurn)
       = [\<lparr>kind = AssistantText, payload = ''Please confirm'', owningTurn = 1,
           producedBy = Confirm, executionNo = 2\<rparr>]"
  using converse_makes_no_call_once_finalized [of finalizedTurn failingExtraction 0]
  by (simp add: finalizedTurn_def finalized_def failingExtraction_def numeral_2_eq_2
        terminal_def executeStage_def transitionRule_def emit_def Let_def)

text \<open>
  Claim C3. In the state machine modelled from the spec: an execution of Confirm adds
  exactly one unit, an assistant text with the confirmation summary of the snapshot,
  sets \<open>requirementsConfirmed\<close>, ends the turn in \<open>Done\<close>, and calls no collaborator
  and leaves the snapshot as it is. An execution of any other stage leaves the flag as
  it was and adds no unit, an error unit, or (Converse only, with a snapshot that is not
  finalized) the text that the completion service returned: no other stage makes a
  confirmation text of its own.
\<close>

theorem confirm_is_the_only_source_of_confirmation:
  "(stage t = Confirm \<longrightarrow>
      units (executeStage env t)
        = units t
          @ [\<lparr>kind = AssistantText, payload = confirmationText env (snapshot t),
              owningTurn = turnId t, producedBy = Confirm, executionNo = executions t + 1\<rparr>]
      \<and> requirementsConfirmed (executeStage env t)
      \<and> stage (executeStage env t) = Done
      \<and> serviceCalls (executeStage env t) = serviceCalls t
      \<and> snapshot (executeStage env t) = snapshot t)
   \<and> (stage t \<noteq> Confirm \<longrightarrow>
      requirementsConfirmed (executeStage env t) = requirementsConfirmed t
      \<and> (units (executeStage env t) = units t
          \<or> (\<exists>u. units (executeStage env t) = units t @ [u] \<and> producedBy u = stage t
                \<and> (kind u = ErrorUnit
                    \<or> (kind u = AssistantText \<and> stage t = Converse
                        \<and> \<not> finalized (snapshot t)
                        \<and> complete env (dialogue t) = Inr (payload u))))))"
proof (rule conjI; rule impI)
  assume c: "stage t = Confirm"
  show "units (executeStage env t)
        = units t
          @ [\<lparr>kind = AssistantText, payload = confirmationText env (snapshot t),
              owningTurn = turnId t, producedBy = Confirm, executionNo = executions t + 1\<rparr>]
      \<and> requirementsConfirmed (executeStage env t)
      \<and> stage (executeStage env t) = Done
      \<and> serviceCalls (executeStage env t) = serviceCalls t
      \<and> snapshot (executeStage env t) = snapshot t"
    unfolding executeStage_Confirm [OF c] by simp
next
  assume n: "stage t \<noteq> Confirm"
  have flag: "requirementsConfirmed (executeStage env t) = requirementsConfirmed t"
    using n
    by (cases "stage t")
       (simp_all add: executeStage_def Let_def failTurn_def emit_def
          split: sum.splits option.splits)
  have us: "units (executeStage env t) = units t
          \<or> (\<exists>u. units (executeStage env t) = units t @ [u] \<and> producedBy u = stage t
                \<and> (kind u = ErrorUnit
                    \<or> (kind u = AssistantText \<and> stage t = Converse
                        \<and> \<not> finalized (snapshot t)
                        \<and> complete env (dialogue t) = Inr (payload u))))"
    using n
    by (cases "stage t")
       (auto simp: executeStage_def Let_def failTurn_def emit_def
          split: sum.splits option.splits)
  from flag us show "requirementsConfirmed (executeStage env t) = requirementsConfirmed t
      \<and> (units (executeStage env t) = units t
          \<or> (\<exists>u. units (executeStage env t) = units t @ [u] \<and> producedBy u = stage t
                \<and> (kind u = ErrorUnit
                    \<or> (kind u = AssistantText \<and> stage t = Converse
                        \<and> \<not> finalized (snapshot t)
                        \<and> complete env (dialogue t) = Inr (payload u)))))"
    by simp
qed

theorem confirm_is_the_only_source_of_confirmation_witness:
  "stage (executeStage failingExtraction finalizedTurn) = Confirm
   \<and> units (executeStage failingExtraction (executeStage failingExtraction finalizedTurn))
       = [\<lparr>kind = AssistantText, payload = ''Please confirm'', owningTurn = 1,
           producedBy = Confirm, executionNo = 2\<rparr>]
   \<and> requirementsConfirmed
        (executeStage failingExtraction (executeStage failingExtraction finalizedTurn))
   \<and> stage (executeStage failingExtraction (executeStage failingExtraction finalizedTurn))
       = Done
   \<and> stage (firstTurn ''hi'') \<noteq> Confirm
   \<and> units (executeStage failingExtraction (firstTurn ''hi''))
       = [\<lparr>kind = AssistantText, payload = ''Tell me more'', owningTurn = 0,
           producedBy = Converse, executionNo = 1\<rparr>]
   \<and> \<not> requirementsConfirmed (executeStage failingExtraction (firstTurn ''hi''))"
  using confirm_is_the_only_source_of_confirmation
      [of "executeStage failingExtraction finalizedTurn" failingExtraction]
    confirm_is_the_only_source_of_confirmation [of "firstTurn ''hi''" failingExtraction]
  by (simp add: finalizedTurn_def finalized_def failingExtraction_def firstTurn_def
        executeStage_def transitionRule_def emit_def Let_def)




text \<open>
  Claim C5, as stated, fails on the component: an accepted text is overwritten by the next
  accepted text. After the texts \<open>a\<close> and \<open>b\<close>, both accepted (the counter is 2), the
  assistant message holds \<open>b\<close> and no message holds \<open>a\<close>; and the API layer, which
  stores the assistant message, holds \<open>a\<close> after the first text and \<open>b\<close> after the
  second.
\<close>

theorem accepted_text_is_overwritten:
  "content (messages (view (onmessage 0 (EventJson (textEvent ''a''))
       (handleSendMessage ''q'' ''n'' Sent ''u'' initialPage))) ! 1) = Some ''a''
   \<and> content (messages (view (onmessage 0 (EventJson (textEvent ''b''))
       (onmessage 0 (EventJson (textEvent ''a''))
         (handleSendMessage ''q'' ''n'' Sent ''u'' initialPage)))) ! 1) = Some ''b''
   \<and> Some ''a'' \<notin> set (map content (messages (view (onmessage 0 (EventJson (textEvent ''b''))
       (onmessage 0 (EventJson (textEvent ''a''))
         (handleSendMessage ''q'' ''n'' Sent ''u'' initialPage))))))
   \<and> callbacks (sseClient (onmessage 0 (EventJson (textEvent ''b''))
       (onmessage 0 (EventJson (textEvent ''a''))
         (handleSendMessage ''q'' ''n'' Sent ''u'' initialPage))))
      = [ConversationHandler \<lparr>sentMessageHashes = {''b'', ''a''}, textEventCount = 2\<rparr>]
   \<and> event_generator [textEvent ''a''] \<lparr>seen_text_contents = {}, assistant_content = []\<rparr>
      = \<lparr>seen_text_contents = {''a''}, assistant_content = ''a''\<rparr>
   \<and> event_generator [textEvent ''a'', textEvent ''b'']
        \<lparr>seen_text_contents = {}, assistant_content = []\<rparr>
      = \<lparr>seen_text_contents = {''b'', ''a''}, assistant_content = ''b''\<rparr>"
  by (simp add: textEvent_def handleSendMessage_def handleSendMessage_begin_def
        handleSendMessage_resume_def initialPage_def initialComponent_def close_def onEvent_def
        connect_def onmessage_def isOpen_def notifyCallbacks_def eventHandler_def
        resolveIndex_def data_member_def setTextContent_def Let_def event_generator_text_def)

text \<open>
  Claim C5, amended. Handling the stream and sending never remove, insert in the middle,
  reorder or replace messages. When an event \<open>e\<close> of the stream arrives (whatever
  callbacks are registered) the list keeps its length and every position keeps its
  message, written at most like this: a user message is untouched; an assistant message
  stays an assistant message, its content and timestamp stay or, for a text event, its
  content becomes the content of \<open>e\<close> (its timestamp stays or becomes that of \<open>e\<close>),
  and its events stay or, for a \<^verbatim>\<open>thought\<close>, \<^verbatim>\<open>tool_call\<close> or
  \<^verbatim>\<open>tool_call_result\<close> event, grow by copies of \<open>e\<close> at the end; and only the
  message that the ref names afterwards and the last message can differ. The
  \<^verbatim>\<open>[DONE]\<close> marker, a message that does not parse, an error of the stream and the
  second half of \<^verbatim>\<open>handleSendMessage\<close> leave the list as it is; the first half of
  \<^verbatim>\<open>handleSendMessage\<close> appends the user message and an empty assistant message, and
  \<^verbatim>\<open>startCodeGeneration\<close> leaves the list as it is or appends its one assistant
  message. (What an accepted text event overwrites is the content and timestamp of
  one assistant message; \<^verbatim>\<open>loadConversation\<close> replaces the list by the stored one.)
\<close>

theorem messages_stay_in_place:
  "framed e (messages (view p)) (messages (view (onmessage h (EventJson e) p)))
   \<and> changedOnlyAt (view p) (view (onmessage h (EventJson e) p))
   \<and> messages (view (onmessage h DoneMarker p)) = messages (view p)
   \<and> messages (view (onmessage h Unparsable p)) = messages (view p)
   \<and> messages (view (onerror h gaveUp p)) = messages (view p)
   \<and> messages (view (handleSendMessage_begin msg now p))
       = messages (view p)
         @ [\<lparr>role = User, content = Some msg, timestamp = now, events = None\<rparr>,
            \<lparr>role = Assistant, content = Some [], timestamp = now, events = Some []\<rparr>]
   \<and> messages (view (handleSendMessage_resume outcome url p)) = messages (view p)
   \<and> (messages (view (startCodeGeneration status now url p)) = messages (view p)
       \<or> messages (view (startCodeGeneration status now url p))
           = messages (view p)
             @ [\<lparr>role = Assistant, content = Some generationStartContent, timestamp = now,
                 events = Some []\<rparr>])"
proof -
  have a: "messages (view (onmessage h DoneMarker p)) = messages (view p)"
    and b: "messages (view (onmessage h Unparsable p)) = messages (view p)"
    by (simp_all add: onmessage_def)
  have c: "messages (view (onerror h gaveUp p)) = messages (view p)" by simp
  have d: "messages (view (handleSendMessage_begin msg now p))
       = messages (view p)
         @ [\<lparr>role = User, content = Some msg, timestamp = now, events = None\<rparr>,
            \<lparr>role = Assistant, content = Some [], timestamp = now, events = Some []\<rparr>]"
    by (simp add: handleSendMessage_begin_def Let_def)
  have e1: "messages (view (handleSendMessage_resume outcome url p)) = messages (view p)"
    by (cases outcome) (simp_all add: handleSendMessage_resume_def Let_def connect_def onEvent_def)
  have f: "messages (view (startCodeGeneration status now url p)) = messages (view p)
       \<or> messages (view (startCodeGeneration status now url p))
           = messages (view p)
             @ [\<lparr>role = Assistant, content = Some generationStartContent, timestamp = now,
                 events = Some []\<rparr>]"
    by (simp add: startCodeGeneration_def Let_def connect_def onEvent_def)
  from place_onmessage [of e p h] a b c d e1 f show ?thesis by blast
qed

theorem messages_stay_in_place_witness:
  "framed (thoughtEvent ''x'')
     (messages (view (handleSendMessage ''q'' ''n'' Sent ''u'' initialPage)))
     (messages (view (onmessage 0 (EventJson (thoughtEvent ''x''))
        (handleSendMessage ''q'' ''n'' Sent ''u'' initialPage))))
   \<and> changedOnlyAt (view (handleSendMessage ''q'' ''n'' Sent ''u'' initialPage))
       (view (onmessage 0 (EventJson (thoughtEvent ''x''))
          (handleSendMessage ''q'' ''n'' Sent ''u'' initialPage)))
   \<and> messages (view (onmessage 0 (EventJson (thoughtEvent ''x''))
        (handleSendMessage ''q'' ''n'' Sent ''u'' initialPage)))
       = [\<lparr>role = User, content = Some ''q'', timestamp = ''n'', events = None\<rparr>,
          \<lparr>role = Assistant, content = Some [], timestamp = ''n'',
            events = Some [thoughtEvent ''x'']\<rparr>]
   \<and> messages (view (handleSendMessage ''q'' ''n'' Sent ''u'' initialPage))
       = [\<lparr>role = User, content = Some ''q'', timestamp = ''n'', events = None\<rparr>,
          \<lparr>role = Assistant, content = Some [], timestamp = ''n'', events = Some []\<rparr>]
   \<and> currentAssistantMessageIndexRef (view (onmessage 0 (EventJson (thoughtEvent ''x''))
        (handleSendMessage ''q'' ''n'' Sent ''u'' initialPage))) = Some 1"
  using messages_stay_in_place [of "thoughtEvent ''x''"
      "handleSendMessage ''q'' ''n'' Sent ''u'' initialPage" 0 False "''q2''" "''n2''" Sent
      "''u''" S_draft]
  by (simp add: thoughtEvent_def handleSendMessage_def handleSendMessage_begin_def
        handleSendMessage_resume_def initialPage_def initialComponent_def close_def onEvent_def
        connect_def onmessage_def isOpen_def notifyCallbacks_def eventHandler_def markClosed_def
        resolveIndex_def data_member_def addEventToMessage_def eventsOrEmpty_def Let_def)

text \<open>
  Claim C6. In the state machine modelled from the spec: when the call that Converse,
  ExtractRequirements or GenerateClarifications makes fails with \<open>f\<close>, that execution
  adds exactly one unit, an error unit with the cause of \<open>f\<close>, puts the turn into
  \<open>Failed\<close> and leaves the snapshot and the flag untouched; the turn ends there; and
  a user message submitted afterwards starts a new turn in Converse with the same
  snapshot. Over a whole turn that starts without units, however long it runs, the number
  of error units is one when the turn has failed and zero otherwise.
\<close>

theorem failed_call_ends_turn_with_one_error:
  "(callFails env t f \<longrightarrow>
      stage (executeStage env t) = Failed
      \<and> units (executeStage env t)
          = units t
            @ [\<lparr>kind = ErrorUnit, payload = cause f, owningTurn = turnId t,
                producedBy = stage t, executionNo = executions t + 1\<rparr>]
      \<and> snapshot (executeStage env t) = snapshot t
      \<and> requirementsConfirmed (executeStage env t) = requirementsConfirmed t
      \<and> runTurn env (Suc n) t = executeStage env t
      \<and> submit msg (runTurn env (Suc n) t)
          = Some \<lparr>turnId = turnId t + 1, stage = Converse, snapshot = snapshot t,
                  requirementsConfirmed = requirementsConfirmed t,
                  dialogue = dialogue t @ [msg], units = [], serviceCalls = [],
                  executions = 0\<rparr>)
   \<and> (units t0 = [] \<and> stage t0 \<noteq> Failed \<longrightarrow>
        length (errorUnits (runTurn env k t0))
          = (if stage (runTurn env k t0) = Failed then 1 else 0))"
proof (rule conjI; rule impI)
  assume cf: "callFails env t f"
  note e = executeStage_fails [OF cf]
  have fin: "terminal (executeStage env t)" unfolding e terminal_def by simp
  have r: "runTurn env (Suc n) t = executeStage env t"
    using callFails_not_terminal [OF cf] runTurn_terminal [OF fin, of env n] by simp
  have s: "submit msg (executeStage env t)
          = Some \<lparr>turnId = turnId t + 1, stage = Converse, snapshot = snapshot t,
                  requirementsConfirmed = requirementsConfirmed t,
                  dialogue = dialogue t @ [msg], units = [], serviceCalls = [],
                  executions = 0\<rparr>"
    unfolding e submit_def terminal_def by simp
  show "stage (executeStage env t) = Failed
      \<and> units (executeStage env t)
          = units t
            @ [\<lparr>kind = ErrorUnit, payload = cause f, owningTurn = turnId t,
                producedBy = stage t, executionNo = executions t + 1\<rparr>]
      \<and> snapshot (executeStage env t) = snapshot t
      \<and> requirementsConfirmed (executeStage env t) = requirementsConfirmed t
      \<and> runTurn env (Suc n) t = executeStage env t
      \<and> submit msg (runTurn env (Suc n) t)
          = Some \<lparr>turnId = turnId t + 1, stage = Converse, snapshot = snapshot t,
                  requirementsConfirmed = requirementsConfirmed t,
                  dialogue = dialogue t @ [msg], units = [], serviceCalls = [],
                  executions = 0\<rparr>"
    unfolding r s unfolding e by simp
next
  assume "units t0 = [] \<and> stage t0 \<noteq> Failed"
  then have "oneErrorIfFailed t0" by (simp add: oneErrorIfFailed_def errorUnits_def)
  from oneErrorIfFailed_runTurn [OF this, of env k]
  show "length (errorUnits (runTurn env k t0))
          = (if stage (runTurn env k t0) = Failed then 1 else 0)"
    by (simp add: oneErrorIfFailed_def)
qed

theorem failed_call_ends_turn_with_one_error_witness:
  "callFails failingExtraction (executeStage failingExtraction (firstTurn ''hi''))
     (CompletionServiceError ''service unavailable'')
   \<and> units (firstTurn ''hi'') = [] \<and> stage (firstTurn ''hi'') \<noteq> Failed
   \<and> stage (runTurn failingExtraction 5 (firstTurn ''hi'')) = Failed
   \<and> errorUnits (runTurn failingExtraction 5 (firstTurn ''hi''))
       = [\<lparr>kind = ErrorUnit, payload = ''service unavailable'', owningTurn = 0,
           producedBy = ExtractRequirements, executionNo = 2\<rparr>]
   \<and> snapshot (runTurn failingExtraction 5 (firstTurn ''hi''))
       = \<lparr>requirements = None, clarifyingQuestions = []\<rparr>
   \<and> submit ''again'' (runTurn failingExtraction 5 (firstTurn ''hi''))
       = Some \<lparr>turnId = 1, stage = Converse,
               snapshot = \<lparr>requirements = None, clarifyingQuestions = []\<rparr>,
               requirementsConfirmed = False,
               dialogue = [''hi'', ''Tell me more'', ''again''], units = [],
               serviceCalls = [], executions = 0\<rparr>"
  using failed_call_ends_turn_with_one_error
      [of failingExtraction "executeStage failingExtraction (firstTurn ''hi'')"
          "CompletionServiceError ''service unavailable''" 3 "''again''" "firstTurn ''hi''" 5]
  by (simp add: failingExtraction_def firstTurn_def finalized_def callFails_def
        executeStage_def transitionRule_def emit_def failTurn_def terminal_def submit_def
        errorUnits_def Let_def eval_nat_numeral)



text \<open>
  Claim C8, as stated, fails on the component: a second message is not queued. Sent while
  the stream of the first turn is still open (no \<^verbatim>\<open>[DONE]\<close> has arrived), it starts
  at once: its two messages are appended, the ref points at its assistant message, the
  first stream is closed by the client and a second one is opened; what the first
  stream would still deliver is dropped.
\<close>

theorem second_message_starts_at_once:
  "isOpen 0 (handleSendMessage ''q1'' ''n1'' Sent ''u'' initialPage)
   \<and> eventSources (handleSendMessage ''q2'' ''n2'' Sent ''u''
          (handleSendMessage ''q1'' ''n1'' Sent ''u'' initialPage))
       = [(''u'', False), (''u'', True)]
   \<and> map role (messages (view (handleSendMessage ''q2'' ''n2'' Sent ''u''
          (handleSendMessage ''q1'' ''n1'' Sent ''u'' initialPage))))
       = [User, Assistant, User, Assistant]
   \<and> currentAssistantMessageIndexRef (view (handleSendMessage ''q2'' ''n2'' Sent ''u''
          (handleSendMessage ''q1'' ''n1'' Sent ''u'' initialPage))) = Some 3
   \<and> eventSource (sseClient (handleSendMessage ''q2'' ''n2'' Sent ''u''
          (handleSendMessage ''q1'' ''n1'' Sent ''u'' initialPage))) = Some 1
   \<and> onmessage 0 (EventJson (textEvent ''late''))
        (handleSendMessage ''q2'' ''n2'' Sent ''u''
          (handleSendMessage ''q1'' ''n1'' Sent ''u'' initialPage))
      = handleSendMessage ''q2'' ''n2'' Sent ''u''
          (handleSendMessage ''q1'' ''n1'' Sent ''u'' initialPage)"
  by (simp add: handleSendMessage_def handleSendMessage_begin_def
        handleSendMessage_resume_def initialPage_def initialComponent_def close_def onEvent_def
        connect_def onmessage_def isOpen_def markClosed_def Let_def)

text \<open>
  Claim C8, amended. At most one stream is open at a time: after any sequence of
  operations of the component, every open \<^verbatim>\<open>EventSource\<close> is the client's current
  one. A message sent then, whether or not a stream is still open, is not queued: its
  user message and its assistant message are appended at once, the stream that was open
  is closed and the new one is the only open one, and no message of an earlier stream is
  handled afterwards.
\<close>

theorem one_stream_at_a_time:
  "onlyCurrentOpen (performAll acts initialPage)
   \<and> messages (view (handleSendMessage msg now Sent url (performAll acts initialPage)))
       = messages (view (performAll acts initialPage))
         @ [\<lparr>role = User, content = Some msg, timestamp = now, events = None\<rparr>,
            \<lparr>role = Assistant, content = Some [], timestamp = now, events = Some []\<rparr>]
   \<and> eventSource (sseClient (handleSendMessage msg now Sent url (performAll acts initialPage)))
       = Some (length (eventSources (performAll acts initialPage)))
   \<and> isOpen h (handleSendMessage msg now Sent url (performAll acts initialPage))
       = (h = length (eventSources (performAll acts initialPage)))
   \<and> (h < length (eventSources (performAll acts initialPage)) \<longrightarrow>
        onmessage h m (handleSendMessage msg now Sent url (performAll acts initialPage))
          = handleSendMessage msg now Sent url (performAll acts initialPage))"
proof -
  let ?p = "performAll acts initialPage"
  let ?b = "handleSendMessage_begin msg now ?p"
  let ?cb = "ConversationHandler \<lparr>sentMessageHashes = {}, textEventCount = 0\<rparr>"
  have inv: "onlyCurrentOpen ?p"
    by (rule onlyCurrentOpen_performAll [OF onlyCurrentOpen_initial])
  then have invb: "onlyCurrentOpen ?b" by (simp add: onlyCurrentOpen_begin)
  have hs: "handleSendMessage msg now Sent url ?p
      = (connect url (onEvent ?cb (close ?b)))
          \<lparr>view := (view (connect url (onEvent ?cb (close ?b))))\<lparr>loading := False\<rparr>\<rparr>"
    by (simp add: handleSendMessage_def handleSendMessage_resume_def Let_def)
  have msgs: "messages (view (handleSendMessage msg now Sent url ?p))
       = messages (view ?p)
         @ [\<lparr>role = User, content = Some msg, timestamp = now, events = None\<rparr>,
            \<lparr>role = Assistant, content = Some [], timestamp = now, events = Some []\<rparr>]"
    by (simp add: hs connect_def onEvent_def) (simp add: handleSendMessage_begin_def Let_def)
  have cur: "eventSource (sseClient (handleSendMessage msg now Sent url ?p))
       = Some (length (eventSources ?p))"
    by (simp add: hs)
  have op: "isOpen k (handleSendMessage msg now Sent url ?p) = (k = length (eventSources ?p))" for k
    using reconnect(2) [OF invb, of k url ?cb] by (simp add: hs)
  have quiet: "h < length (eventSources ?p) \<longrightarrow>
        onmessage h m (handleSendMessage msg now Sent url ?p)
          = handleSendMessage msg now Sent url ?p"
    using op [of h] by (simp add: onmessage_def)
  from inv msgs cur op [of h] quiet show ?thesis by blast
qed

theorem one_stream_at_a_time_witness:
  "onlyCurrentOpen (performAll [SendBegin ''q1'' ''n1'', SendResume Sent ''u'',
        StreamMessage 0 (EventJson (thoughtEvent ''x''))] initialPage)
   \<and> isOpen 0 (performAll [SendBegin ''q1'' ''n1'', SendResume Sent ''u'',
        StreamMessage 0 (EventJson (thoughtEvent ''x''))] initialPage)
   \<and> isOpen 1 (handleSendMessage ''q2'' ''n2'' Sent ''u''
        (performAll [SendBegin ''q1'' ''n1'', SendResume Sent ''u'',
           StreamMessage 0 (EventJson (thoughtEvent ''x''))] initialPage))
   \<and> \<not> isOpen 0 (handleSendMessage ''q2'' ''n2'' Sent ''u''
        (performAll [SendBegin ''q1'' ''n1'', SendResume Sent ''u'',
           StreamMessage 0 (EventJson (thoughtEvent ''x''))] initialPage))
   \<and> (0::nat) < length (eventSources (performAll [SendBegin ''q1'' ''n1'', SendResume Sent ''u'',
           StreamMessage 0 (EventJson (thoughtEvent ''x''))] initialPage))
   \<and> onmessage 0 (EventJson (textEvent ''late''))
        (handleSendMessage ''q2'' ''n2'' Sent ''u''
          (performAll [SendBegin ''q1'' ''n1'', SendResume Sent ''u'',
             StreamMessage 0 (EventJson (thoughtEvent ''x''))] initialPage))
      = handleSendMessage ''q2'' ''n2'' Sent ''u''
          (performAll [SendBegin ''q1'' ''n1'', SendResume Sent ''u'',
             StreamMessage 0 (EventJson (thoughtEvent ''x''))] initialPage)"
proof -
  let ?p = "performAll [SendBegin ''q1'' ''n1'', SendResume Sent ''u'',
        StreamMessage 0 (EventJson (thoughtEvent ''x''))] initialPage"
  have es: "eventSources ?p = [(''u'', True)]"
    by (simp add: thoughtEvent_def handleSendMessage_begin_def handleSendMessage_resume_def
          initialPage_def initialComponent_def close_def onEvent_def connect_def onmessage_def
          isOpen_def notifyCallbacks_def Let_def)
  note t0 = one_stream_at_a_time [of "[SendBegin ''q1'' ''n1'', SendResume Sent ''u'',
        StreamMessage 0 (EventJson (thoughtEvent ''x''))]" "''q2''" "''n2''" "''u''" 0
        "EventJson (textEvent ''late'')"]
  note t1 = one_stream_at_a_time [of "[SendBegin ''q1'' ''n1'', SendResume Sent ''u'',
        StreamMessage 0 (EventJson (thoughtEvent ''x''))]" "''q2''" "''n2''" "''u''" 1
        "EventJson (textEvent ''late'')"]
  have o0: "isOpen 0 ?p" unfolding isOpen_def es by simp
  from t0 t1 o0 show ?thesis unfolding es by simp
qed

text \<open>
  Claim C9, as stated, fails on the component: attaching opens no live tail. With a turn
  in flight (stream 0 open), the component is unmounted and mounted again;
  \<^verbatim>\<open>loadConversation\<close> shows the stored messages, but no stream is open afterwards and
  a unit accepted later on the first stream never reaches the component.
\<close>

theorem attach_opens_no_stream:
  "isOpen 0 (handleSendMessage ''q1'' ''n1'' Sent ''u'' initialPage)
   \<and> messages (view (loadConversation (Loaded [storedUser, storedAssistant])
        (unmount (handleSendMessage ''q1'' ''n1'' Sent ''u'' initialPage))))
       = [storedUser\<lparr>events := Some []\<rparr>, storedAssistant]
   \<and> eventSource (sseClient (loadConversation (Loaded [storedUser, storedAssistant])
        (unmount (handleSendMessage ''q1'' ''n1'' Sent ''u'' initialPage)))) = None
   \<and> eventSources (loadConversation (Loaded [storedUser, storedAssistant])
        (unmount (handleSendMessage ''q1'' ''n1'' Sent ''u'' initialPage))) = [(''u'', False)]
   \<and> onmessage 0 (EventJson (textEvent ''r2''))
        (loadConversation (Loaded [storedUser, storedAssistant])
          (unmount (handleSendMessage ''q1'' ''n1'' Sent ''u'' initialPage)))
      = loadConversation (Loaded [storedUser, storedAssistant])
          (unmount (handleSendMessage ''q1'' ''n1'' Sent ''u'' initialPage))"
  by (simp add: storedUser_def storedAssistant_def handleSendMessage_def
        handleSendMessage_begin_def handleSendMessage_resume_def initialPage_def
        initialComponent_def close_def onEvent_def connect_def onmessage_def isOpen_def
        markClosed_def unmount_def loadConversation_def formatMessage_def eventsOrEmpty_def
        Let_def)

text \<open>
  Claim C9, amended. When the component attaches, \<^verbatim>\<open>loadConversation\<close> with a
  non-empty stored conversation makes the message list exactly the stored messages, each
  once and in the stored order, and resets the current index; it leaves the SSE client
  and its streams untouched, so it opens none; loading the same conversation again
  changes nothing further; and after a disconnect (unmount) from any reachable page and a
  new attach no stream is open, so that no live tail follows the stored messages.
\<close>

theorem attach_loads_stored_messages_once:
  "ms \<noteq> [] \<longrightarrow>
     messages (view (loadConversation (Loaded ms) p)) = map formatMessage ms
     \<and> currentAssistantMessageIndexRef (view (loadConversation (Loaded ms) p)) = None
     \<and> sseClient (loadConversation (Loaded ms) p) = sseClient p
     \<and> eventSources (loadConversation (Loaded ms) p) = eventSources p
     \<and> loadConversation (Loaded ms) (loadConversation (Loaded ms) p)
         = loadConversation (Loaded ms) p
     \<and> \<not> isOpen h (loadConversation (Loaded ms) (unmount (performAll acts initialPage)))"
proof (rule impI)
  assume ne: "ms \<noteq> []"
  have "\<not> isOpen h (close (performAll acts initialPage))"
    by (rule closed_after_close [OF onlyCurrentOpen_performAll [OF onlyCurrentOpen_initial]])
  then have "\<not> isOpen h (unmount (performAll acts initialPage))"
    by (simp add: unmount_def Let_def)
  with ne show "messages (view (loadConversation (Loaded ms) p)) = map formatMessage ms
     \<and> currentAssistantMessageIndexRef (view (loadConversation (Loaded ms) p)) = None
     \<and> sseClient (loadConversation (Loaded ms) p) = sseClient p
     \<and> eventSources (loadConversation (Loaded ms) p) = eventSources p
     \<and> loadConversation (Loaded ms) (loadConversation (Loaded ms) p)
         = loadConversation (Loaded ms) p
     \<and> \<not> isOpen h (loadConversation (Loaded ms) (unmount (performAll acts initialPage)))"
    by (simp add: loadConversation_def)
qed

theorem attach_loads_stored_messages_once_witness:
  "[storedUser, storedAssistant] \<noteq> []
   \<and> messages (view (loadConversation (Loaded [storedUser, storedAssistant]) initialPage))
       = [storedUser\<lparr>events := Some []\<rparr>, storedAssistant]
   \<and> eventSource (sseClient (loadConversation (Loaded [storedUser, storedAssistant]) initialPage))
       = None
   \<and> \<not> isOpen 0 (loadConversation (Loaded [storedUser, storedAssistant])
        (unmount (performAll [SendBegin ''q1'' ''n1'', SendResume Sent ''u''] initialPage)))"
  using attach_loads_stored_messages_once [of "[storedUser, storedAssistant]" initialPage 0
      "[SendBegin ''q1'' ''n1'', SendResume Sent ''u'']"]
  by (simp add: storedUser_def storedAssistant_def formatMessage_def eventsOrEmpty_def
        initialPage_def initialComponent_def)

text \<open>
  Claim C10. A text event that a handler accepts overwrites the whole content of the
  current assistant message with its payload. For the handler of \<^verbatim>\<open>handleSendMessage\<close>
  (\<open>textEventCount\<close> goes up exactly when a text event is accepted): after any events
  \<open>evs1\<close>, an accepted event \<open>ev\<close> and any later events \<open>evs2\<close> none of which is
  accepted, the content of the current assistant message is the payload of \<open>ev\<close>. For
  the handler of \<^verbatim>\<open>startCodeGeneration\<close>, which accepts every text event: after a
  text event \<open>gev\<close> and later events that are not text events, the content of the last
  message is the payload of \<open>gev\<close>. In both cases the content is that one payload, not a
  concatenation with earlier ones. (That the ref points at an assistant message
  holds on every page the component reaches, by \<open>refValid_reachable\<close>.)
\<close>

theorem text_event_replaces_content:
  "(currentAssistantMessageIndexRef c = Some i \<and> i < length (messages c)
      \<and> role (messages c ! i) = Assistant
      \<and> s1 = handleEvents evs1 (l, c) \<and> s2 = eventHandler ev s1 \<and> s3 = handleEvents evs2 s2
      \<and> textEventCount (fst s2) \<noteq> textEventCount (fst s1)
      \<and> textEventCount (fst s3) = textEventCount (fst s2)
    \<longrightarrow> ev_type ev = T_text \<and> content (messages (snd s3) ! i) = data_member ev ''content'')
   \<and> (messages g \<noteq> [] \<and> role (last (messages g)) = Assistant
      \<and> ev_type gev = T_text \<and> (\<forall>e \<in> set gevs2. ev_type e \<noteq> T_text)
    \<longrightarrow> content (last (messages (handleGenerationEvents (gevs1 @ gev # gevs2) g)))
          = data_member gev ''content'')"
proof (rule conjI; rule impI)
  assume h: "currentAssistantMessageIndexRef c = Some i \<and> i < length (messages c)
      \<and> role (messages c ! i) = Assistant
      \<and> s1 = handleEvents evs1 (l, c) \<and> s2 = eventHandler ev s1 \<and> s3 = handleEvents evs2 s2
      \<and> textEventCount (fst s2) \<noteq> textEventCount (fst s1)
      \<and> textEventCount (fst s3) = textEventCount (fst s2)"
  from h have ref: "currentAssistantMessageIndexRef (snd (l, c)) = Some i" by simp
  from h have eq1: "s1 = handleEvents evs1 (l, c)" by blast
  from frame_run [OF ref, of evs1]
  have r1: "currentAssistantMessageIndexRef (snd s1) = Some i"
    and k1: "keeps (messages c) (messages (snd s1))" unfolding eq1 by simp_all
  from k1 h have i1: "i < length (messages (snd s1))" and a1: "role (messages (snd s1) ! i) = Assistant"
    by (simp_all add: keeps_def)
  from h have eq2: "s2 = eventHandler ev s1" and eq3: "s3 = handleEvents evs2 s2"
    and ne: "textEventCount (fst s2) \<noteq> textEventCount (fst s1)"
    and same: "textEventCount (fst s3) = textEventCount (fst s2)" by blast+
  from ne have acc: "textEventCount (fst (eventHandler ev s1)) \<noteq> textEventCount (fst s1)"
    unfolding eq2 .
  from accepted_step [OF r1 i1 a1 acc]
  have t: "ev_type ev = T_text" and c2: "content (messages (snd s2) ! i) = data_member ev ''content''"
    unfolding eq2 by simp_all
  from frame_step [OF r1, of ev] have k2: "keeps (messages (snd s1)) (messages (snd s2))"
    unfolding eq2 by simp
  from k2 i1 have i2: "i < length (messages (snd s2))" by (simp add: keeps_def)
  from same have "textEventCount (fst (handleEvents evs2 s2)) = textEventCount (fst s2)"
    unfolding eq3 .
  from rejected_run [OF this]
  have "map content (messages (snd s3)) = map content (messages (snd s2))" unfolding eq3 .
  from map_content_nth [OF this i2] c2
  have "content (messages (snd s3) ! i) = data_member ev ''content''" by simp
  with t show "ev_type ev = T_text \<and> content (messages (snd s3) ! i) = data_member ev ''content''"
    by simp
next
  assume h: "messages g \<noteq> [] \<and> role (last (messages g)) = Assistant
      \<and> ev_type gev = T_text \<and> (\<forall>e \<in> set gevs2. ev_type e \<noteq> T_text)"
  let ?g1 = "handleGenerationEvents gevs1 g"
  let ?g2 = "generationEventHandler gev ?g1"
  from keeps_last_role [OF generation_frame_run [of g gevs1]] h
  have n1: "messages ?g1 \<noteq> []" and a1: "role (last (messages ?g1)) = Assistant" by simp_all
  from h have t: "ev_type gev = T_text" by simp
  have c2: "content (last (messages ?g2)) = data_member gev ''content''"
    by (rule generation_text_step [OF n1 a1 t])
  from keeps_last_role [OF keeps_generationEventHandler [of ?g1 gev] n1]
  have n2: "messages ?g2 \<noteq> []" by simp
  from h have "\<forall>e \<in> set gevs2. ev_type e \<noteq> T_text" by simp
  from generation_other_run [OF this, of ?g2]
  have "map content (messages (handleGenerationEvents gevs2 ?g2)) = map content (messages ?g2)" .
  from map_content_last [OF this n2] c2
  show "content (last (messages (handleGenerationEvents (gevs1 @ gev # gevs2) g)))
          = data_member gev ''content''"
    by (simp add: handleGenerationEvents_append)
qed

theorem text_event_replaces_content_witness:
  "content (messages (snd (handleEvents [textEvent ''a'', textEvent ''b'', textEvent ''a'', thoughtEvent ''x'']
      (\<lparr>sentMessageHashes = {}, textEventCount = 0\<rparr>,
       view (handleSendMessage_begin ''q'' ''n'' initialPage)))) ! 1) = Some ''b''
   \<and> content (last (messages (handleGenerationEvents [textEvent ''a'', textEvent ''b'', thoughtEvent ''x'']
       (view (startCodeGeneration S_requirements_confirmed ''n'' ''u'' initialPage))))) = Some ''b''"
  using text_event_replaces_content [of "view (handleSendMessage_begin ''q'' ''n'' initialPage)" 1
      "handleEvents [textEvent ''a''] (\<lparr>sentMessageHashes = {}, textEventCount = 0\<rparr>,
         view (handleSendMessage_begin ''q'' ''n'' initialPage))"
      "[textEvent ''a'']" "\<lparr>sentMessageHashes = {}, textEventCount = 0\<rparr>"
      "eventHandler (textEvent ''b'') (handleEvents [textEvent ''a''] (\<lparr>sentMessageHashes = {}, textEventCount = 0\<rparr>,
         view (handleSendMessage_begin ''q'' ''n'' initialPage)))"
      "textEvent ''b''"
      "handleEvents [textEvent ''a'', thoughtEvent ''x''] (eventHandler (textEvent ''b'') (handleEvents [textEvent ''a''] (\<lparr>sentMessageHashes = {}, textEventCount = 0\<rparr>,
         view (handleSendMessage_begin ''q'' ''n'' initialPage))))"
      "[textEvent ''a'', thoughtEvent ''x'']"
      "view (startCodeGeneration S_requirements_confirmed ''n'' ''u'' initialPage)"
      "textEvent ''b''" "[thoughtEvent ''x'']" "[textEvent ''a'']"]
  by (simp add: textEvent_def thoughtEvent_def handleSendMessage_begin_def initialPage_def
        initialComponent_def eventHandler_def resolveIndex_def data_member_def setTextContent_def
        addEventToMessage_def eventsOrEmpty_def Let_def startCodeGeneration_def
        canStartGeneration_def isCodeGenerating_def close_def onEvent_def connect_def)

end
